theory Spec2Isabelle
  imports Complex_Main "HOL-Library.AList"
begin

section \<open>Go strings\<close>

text \<open>
  A Go string is a sequence of bytes, here a \<open>string\<close> (a list of \<open>char\<close>).  The functions of
  package \<open>strings\<close> that the scanner calls are modelled on bytes.  Case mapping and white
  space follow the ASCII tables: a byte outside ASCII is neither a letter nor white space
  and is left as it is.  The model agrees with Go on ASCII text; on letters and white space
  outside ASCII the functions \<open>ToLower\<close>, \<open>ToUpper\<close>, \<open>EqualFold\<close>, \<open>Title\<close> and \<open>TrimSpace\<close> of
  Go do more than their models here.
\<close>

definition upper_letters :: string where
  "upper_letters = ''ABCDEFGHIJKLMNOPQRSTUVWXYZ''"

definition lower_letters :: string where
  "lower_letters = ''abcdefghijklmnopqrstuvwxyz''"

definition digit_chars :: string where
  "digit_chars = ''0123456789''"

definition toLowerChar :: "char \<Rightarrow> char" where
  "toLowerChar c = (case map_of (zip upper_letters lower_letters) c of Some d \<Rightarrow> d | None \<Rightarrow> c)"

definition toUpperChar :: "char \<Rightarrow> char" where
  "toUpperChar c = (case map_of (zip lower_letters upper_letters) c of Some d \<Rightarrow> d | None \<Rightarrow> c)"

definition ToLower :: "string \<Rightarrow> string" where
  "ToLower s = map toLowerChar s"

definition ToUpper :: "string \<Rightarrow> string" where
  "ToUpper s = map toUpperChar s"

definition EqualFold :: "string \<Rightarrow> string \<Rightarrow> bool" where
  "EqualFold s t = (ToLower s = ToLower t)"

definition HasPrefix :: "string \<Rightarrow> string \<Rightarrow> bool" where
  "HasPrefix s p = (take (length p) s = p)"

definition HasSuffix :: "string \<Rightarrow> string \<Rightarrow> bool" where
  "HasSuffix s p = (length p \<le> length s \<and> drop (length s - length p) s = p)"

definition TrimPrefix :: "string \<Rightarrow> string \<Rightarrow> string" where
  "TrimPrefix s p = (if HasPrefix s p then drop (length p) s else s)"

definition TrimSuffix :: "string \<Rightarrow> string \<Rightarrow> string" where
  "TrimSuffix s p = (if HasSuffix s p then take (length s - length p) s else s)"

text \<open>\<open>strings.Contains(s, sub)\<close>: \<open>sub\<close> occurs in \<open>s\<close> at some position.\<close>

fun Contains :: "string \<Rightarrow> string \<Rightarrow> bool" where
  "Contains [] sub = (sub = [])"
| "Contains (c # s) sub = (HasPrefix (c # s) sub \<or> Contains s sub)"

text \<open>\<open>strings.Count(s, sep)\<close> and \<open>strings.Index(s, sep)\<close> for a separator of one byte.\<close>

definition CountChar :: "string \<Rightarrow> char \<Rightarrow> nat" where
  "CountChar s c = length (filter (\<lambda>x. x = c) s)"

definition IndexChar :: "string \<Rightarrow> char \<Rightarrow> nat option" where
  "IndexChar s c = (if c \<in> set s then Some (length (takeWhile (\<lambda>x. x \<noteq> c) s)) else None)"

text \<open>\<open>strings.Split(s, sep)\<close> for a separator of one byte: always at least one piece.\<close>

fun Split :: "string \<Rightarrow> char \<Rightarrow> string list" where
  "Split [] sep = [[]]"
| "Split (c # s) sep =
     (if c = sep then [] # Split s sep
      else (case Split s sep of [] \<Rightarrow> [[c]] | p # ps \<Rightarrow> (c # p) # ps))"

fun Join :: "string list \<Rightarrow> string \<Rightarrow> string" where
  "Join [] sep = []"
| "Join [x] sep = x"
| "Join (x # y # ys) sep = x @ sep @ Join (y # ys) sep"

text \<open>\<open>strings.Trim(s, cutset)\<close> removes the bytes of \<open>cutset\<close> from both ends.\<close>

definition Trim :: "string \<Rightarrow> string \<Rightarrow> string" where
  "Trim s cutset =
     rev (dropWhile (\<lambda>c. c \<in> set cutset) (rev (dropWhile (\<lambda>c. c \<in> set cutset) s)))"

text \<open>The ASCII white space of \<open>unicode.IsSpace\<close>: tab, line feed, vertical tab, form feed,
  carriage return and space.\<close>

definition space_chars :: string where
  "space_chars = [CHR 0x09, CHR 0x0A, CHR 0x0B, CHR 0x0C, CHR 0x0D, CHR '' '']"

definition TrimSpace :: "string \<Rightarrow> string" where
  "TrimSpace s = Trim s space_chars"

text \<open>
  \<open>strings.Title\<close> maps the first letter of every word to upper case; a word starts at the
  beginning of the string and after every separator, and the ASCII separators are the
  bytes that are neither letters, digits nor the underscore.
\<close>

definition isSeparator :: "char \<Rightarrow> bool" where
  "isSeparator c =
     (c \<notin> set upper_letters \<and> c \<notin> set lower_letters \<and> c \<notin> set digit_chars \<and> c \<noteq> CHR ''_''
      \<and> c \<in> set (map char_of [0 ..< (128::nat)]))"

fun TitleFrom :: "char \<Rightarrow> string \<Rightarrow> string" where
  "TitleFrom prev [] = []"
| "TitleFrom prev (c # s) = (if isSeparator prev then toUpperChar c else c) # TitleFrom c s"

definition Title :: "string \<Rightarrow> string" where
  "Title s = TitleFrom (CHR '' '') s"

section \<open>Body detector: values, tags and the variable-name table\<close>

text \<open>Record fields are global names in HOL, so the fields \<open>Name\<close>, \<open>Type\<close> and
  \<open>Fields\<close> that several Go structs share carry the struct as a prefix.\<close>

record StructFieldInfo =
  FieldName :: string
  FieldType :: string
  JSONTag :: string
  Required :: bool

record StructInfo =
  InfoName :: string
  InfoFields :: "StructFieldInfo list"

text \<open>\<open>generateBodyByVariableName\<close>: the \<open>switch\<close> is tried from the top.\<close>

definition generateBodyByVariableName :: "string \<Rightarrow> string" where
  \<open>generateBodyByVariableName varName =
     (let lowerName = ToLower varName in
      if Contains lowerName ''user'' then
        ''{"name":"string","email":"string","id":"string"}''
      else if Contains lowerName ''create'' \<or> Contains lowerName ''post'' then
        ''{"name":"string","value":"string","type":"string"}''
      else if Contains lowerName ''update'' \<or> Contains lowerName ''put''
              \<or> Contains lowerName ''patch'' then
        ''{"id":"string","name":"string","value":"string"}''
      else if Contains lowerName ''delete'' then
        ''{"id":"string","reason":"string"}''
      else if Contains lowerName ''request'' \<or> Contains lowerName ''req'' then
        ''{"data":"string","parameters":{}}''
      else
        ''{"id":"string","name":"string","value":"string","timestamp":"2024-01-01T00:00:00Z"}'')\<close>

text \<open>\<open>generateValueForType\<close>: a slice type is rendered from its element type.\<close>

function generateValueForType :: "string \<Rightarrow> string" where
  \<open>generateValueForType goType =
     (if goType = ''string'' then ''"string"''
      else if goType = ''int'' \<or> goType = ''int32'' \<or> goType = ''int64''
              \<or> goType = ''uint'' \<or> goType = ''uint32'' \<or> goType = ''uint64'' then ''0''
      else if goType = ''float32'' \<or> goType = ''float64'' then ''0.0''
      else if goType = ''bool'' then ''false''
      else if HasPrefix goType ''[]'' then
        ''['' @ generateValueForType (TrimPrefix goType ''[]'') @ '']''
      else if HasPrefix goType ''map['' then ''{}''
      else if goType = ''interface{}'' \<or> goType = ''any'' then ''"string"''
      else ''"string"'')\<close>
  by pat_completeness auto
termination
proof (relation "measure length")
  show "wf (measure length)" by simp
next
  fix goType :: string
  assume "HasPrefix goType ''[]''"
  then have "length goType \<ge> 2"
    by (cases goType; cases "tl goType") (auto simp: HasPrefix_def)
  then show "(TrimPrefix goType ''[]'', goType) \<in> measure length"
    using \<open>HasPrefix goType ''[]''\<close> by (simp add: TrimPrefix_def)
qed

text \<open>\<open>extractJSONTag\<close>: the first part \<open>json:...\<close> of the tag whose name is neither empty nor
  \<open>-\<close> gives the name; otherwise the result is empty.\<close>

definition jsonPartOf :: "string \<Rightarrow> string" where
  \<open>jsonPartOf part =
     (let jsonPart = Trim (TrimPrefix part ''json:'') ''"'' in
      case IndexChar jsonPart (CHR '','') of Some idx \<Rightarrow> take idx jsonPart | None \<Rightarrow> jsonPart)\<close>

fun extractJSONTagParts :: "string list \<Rightarrow> string" where
  "extractJSONTagParts [] = ''''"
| "extractJSONTagParts (part # parts) =
     (if HasPrefix part ''json:'' then
        (let jsonPart = jsonPartOf part in
         if jsonPart \<noteq> ''-'' \<and> jsonPart \<noteq> '''' then jsonPart
         else extractJSONTagParts parts)
      else extractJSONTagParts parts)"

definition extractJSONTag :: "string \<Rightarrow> string" where
  "extractJSONTag tag = extractJSONTagParts (Split tag (CHR '' ''))"

section \<open>Syntax trees\<close>

text \<open>
  The part of \<open>go/ast\<close> that the scanner looks at.  \<open>OtherNode\<close> stands for every node kind
  the scanner has no case for and keeps the children in the order \<open>ast.Walk\<close> visits them.
  A \<open>BasicLit\<close> carries its kind and its source text (\<open>Value\<close>), a \<open>Field\<close> its names, its
  type and the source text of its tag, a \<open>FuncDecl\<close> its name, the nodes of its receiver and
  signature, and its body.
\<close>

datatype token = STRING | INT | FLOAT | IMAG | CHAR

datatype node =
    Ident string
  | BasicLit token string
  | SelectorExpr node string
  | CallExpr node "node list"
  | UnaryExpr string node
  | StarExpr node
  | ArrayType "node option" node
  | MapType node node
  | StructType "field list"
  | CompositeLit "node option" "node list"
  | GenDecl "spec list"
  | FuncDecl string "node list" "node option"
  | AssignStmt "node list" "node list"
  | DeclStmt node
  | ExprStmt node
  | BlockStmt "node list"
  | OtherNode "node list"
and field = Field "string list" node "string option"
and spec =
    ValueSpec "string list" "node option" "node list"
  | TypeSpec string node
  | ImportSpec string

fun fieldNodes :: "field \<Rightarrow> node list" where
  "fieldNodes (Field names ty tag) =
     map Ident names @ [ty] @ (case tag of None \<Rightarrow> [] | Some v \<Rightarrow> [BasicLit STRING v])"

fun specNodes :: "spec \<Rightarrow> node list" where
  "specNodes (ValueSpec names ty vals) =
     map Ident names @ (case ty of None \<Rightarrow> [] | Some t \<Rightarrow> [t]) @ vals"
| "specNodes (TypeSpec name ty) = [Ident name, ty]"
| "specNodes (ImportSpec path) = [BasicLit STRING path]"

text \<open>The children of a node, in the order of \<open>ast.Walk\<close>.\<close>

fun children :: "node \<Rightarrow> node list" where
  "children (Ident name) = []"
| "children (BasicLit kind v) = []"
| "children (SelectorExpr x sel) = [x, Ident sel]"
| "children (CallExpr f args) = f # args"
| "children (UnaryExpr op x) = [x]"
| "children (StarExpr x) = [x]"
| "children (ArrayType len elt) = (case len of None \<Rightarrow> [] | Some l \<Rightarrow> [l]) @ [elt]"
| "children (MapType k v) = [k, v]"
| "children (StructType flds) = concat (map fieldNodes flds)"
| "children (CompositeLit ty elts) = (case ty of None \<Rightarrow> [] | Some t \<Rightarrow> [t]) @ elts"
| "children (GenDecl specs) = concat (map specNodes specs)"
| "children (FuncDecl name sig body) =
     Ident name # sig @ (case body of None \<Rightarrow> [] | Some b \<Rightarrow> [b])"
| "children (AssignStmt lhs rhs) = lhs @ rhs"
| "children (DeclStmt d) = [d]"
| "children (ExprStmt x) = [x]"
| "children (BlockStmt stmts) = stmts"
| "children (OtherNode ns) = ns"

text \<open>
  \<open>ast.Inspect(n, f)\<close>: depth first, parents before children.  The visitor \<open>f\<close> is a closure
  over variables it assigns; here it takes their value and returns the new one, together
  with the boolean that tells \<open>Inspect\<close> whether to visit the children of the node.
  Returning false leaves out the sub-tree of that node only: the walk goes on with the
  node's siblings.
\<close>

function inspect :: "(node \<Rightarrow> 's \<Rightarrow> bool \<times> 's) \<Rightarrow> node \<Rightarrow> 's \<Rightarrow> 's" where
  "inspect f n s =
     (case f n s of (True, s') \<Rightarrow> fold (inspect f) (children n) s' | (False, s') \<Rightarrow> s')"
  by pat_completeness auto
termination
proof (relation "measure (\<lambda>(f, n, s). size n)")
  show "wf (measure (\<lambda>(f :: node \<Rightarrow> 's \<Rightarrow> bool \<times> 's, n, s). size n))" by simp
next
  fix f :: "node \<Rightarrow> 's \<Rightarrow> bool \<times> 's" and n m :: node and s s' :: 's and b :: bool
  assume m: "m \<in> set (children n)"
  have elemN: "size x < Suc (size_list size xs)" if "x \<in> set xs" for x :: node and xs
    using that by (induction xs) auto
  have elemF: "size x < Suc (size_list size xs)" if "x \<in> set xs" for x :: field and xs
    using that by (induction xs) auto
  have elemS: "size x < Suc (size_list size xs)" if "x \<in> set xs" for x :: spec and xs
    using that by (induction xs) auto
  have fld: "size k \<le> size fd" if "k \<in> set (fieldNodes fd)" for k fd
    using that by (cases fd) (auto split: option.splits)
  have spc: "size k \<le> size sp" if "k \<in> set (specNodes sp)" for k sp
    using that by (cases sp) (auto split: option.splits dest: elemN)
  have "size m < size n"
  proof (cases n)
    case (StructType flds)
    then obtain fd where "fd \<in> set flds" "m \<in> set (fieldNodes fd)"
      using m by auto
    then have "size m \<le> size fd" "size fd < Suc (size_list size flds)"
      by (auto dest: fld elemF)
    then show ?thesis using StructType by simp
  next
    case (GenDecl specs)
    then obtain sp where "sp \<in> set specs" "m \<in> set (specNodes sp)"
      using m by auto
    then have "size m \<le> size sp" "size sp < Suc (size_list size specs)"
      by (auto dest: spc elemS)
    then show ?thesis using GenDecl by simp
  qed (use m in \<open>auto split: option.splits dest: elemN\<close>)
  then show "((f, m, s'), (f, n, s)) \<in> measure (\<lambda>(f, n, s). size n)" by simp
qed

text \<open>A parsed source file: package name, the source text of every import path, the text
  of every comment group (\<open>CommentGroup.Text()\<close>), and the top-level declarations.\<close>

record ast_file =
  PackageName :: string
  Imports :: "string list"
  Comments :: "string list"
  Decls :: "node list"

section \<open>Project analyzer\<close>

text \<open>
  A Go map is an association list with distinct keys: \<open>m[k] = v\<close> is \<open>AList.update k v m\<close>,
  a lookup is \<open>map_of m k\<close>, and \<open>range\<close> runs through the list from its head (Go leaves the
  order open; statements about it hold for every order).  Of \<open>ProjectAnalysis\<close> and the
  structs it contains, the model keeps the fields that some function reads: the interfaces,
  functions and named types, the module name, comments and file lists are written by the
  analyzer and never read again.  Confidence scores are real numbers, where the source has
  \<open>float64\<close>: sums and quotients are exact here and rounded there.
\<close>

record StructDefinition =
  DefName :: string
  DefFields :: "StructFieldInfo list"
  DefPackage :: string
  DefFile :: string

record PackageInfo =
  PkgName :: string
  PkgImports :: "string list"
  IsMain :: bool

record ArchitecturePattern =
  ArchType :: string
  Layers :: "string list"
  DTOPatterns :: "string list"
  Confidence :: real

record ProjectAnalysis =
  Structs :: "(string \<times> StructDefinition) list"
  Packages :: "(string \<times> PackageInfo) list"
  ArchPattern :: ArchitecturePattern

fun getTypeString :: "node \<Rightarrow> string" where
  "getTypeString (Ident name) = name"
| "getTypeString (SelectorExpr x sel) = getTypeString x @ ''.'' @ sel"
| "getTypeString (ArrayType len elt) = ''[]'' @ getTypeString elt"
| "getTypeString (MapType k v) = ''map['' @ getTypeString k @ '']'' @ getTypeString v"
| "getTypeString (StarExpr x) = ''*'' @ getTypeString x"
| "getTypeString _ = ''interface{}''"

text \<open>\<open>analyzeStructField\<close>: an embedded field has no tag; a named field takes the name that
  \<open>extractJSONTag\<close> finds and, when that is empty, its own name in lower case.\<close>

fun analyzeStructField :: "field \<Rightarrow> StructFieldInfo list" where
  "analyzeStructField (Field names ty tag) =
     (let fieldType = getTypeString ty in
      if names = [] then
        [\<lparr>FieldName = getTypeString ty, FieldType = fieldType, JSONTag = '''', Required = True\<rparr>]
      else
        map (\<lambda>name.
               \<lparr>FieldName = name, FieldType = fieldType,
                JSONTag =
                  (case tag of
                     Some v \<Rightarrow>
                       (let t = extractJSONTag (Trim v [CHR 0x60]) in
                        if t = '''' then ToLower name else t)
                   | None \<Rightarrow> ToLower name),
                Required = True\<rparr>)
            names)"

fun analyzeTypeSpec :: "spec \<Rightarrow> string \<Rightarrow> string \<Rightarrow> ProjectAnalysis \<Rightarrow> ProjectAnalysis" where
  "analyzeTypeSpec (TypeSpec typeName (StructType flds)) packageName filePath analysis =
     analysis\<lparr>Structs :=
       AList.update (packageName @ ''.'' @ typeName)
         \<lparr>DefName = typeName, DefFields = concat (map analyzeStructField flds),
          DefPackage = packageName, DefFile = filePath\<rparr>
         (Structs analysis)\<rparr>"
| "analyzeTypeSpec _ packageName filePath analysis = analysis"

definition analyzeGenDecl :: "spec list \<Rightarrow> string \<Rightarrow> string \<Rightarrow> ProjectAnalysis \<Rightarrow> ProjectAnalysis" where
  "analyzeGenDecl specs packageName filePath analysis =
     fold (\<lambda>sp a. analyzeTypeSpec sp packageName filePath a) specs analysis"

fun analyzeDecl :: "string \<Rightarrow> string \<Rightarrow> node \<Rightarrow> ProjectAnalysis \<Rightarrow> ProjectAnalysis" where
  "analyzeDecl packageName filePath (GenDecl specs) analysis =
     analyzeGenDecl specs packageName filePath analysis"
| "analyzeDecl packageName filePath _ analysis = analysis"

definition analyzeFile :: "string \<Rightarrow> ast_file \<Rightarrow> ProjectAnalysis \<Rightarrow> ProjectAnalysis" where
  \<open>analyzeFile filePath file analysis =
     (let packageName = PackageName file;
          pkg = (case map_of (Packages analysis) packageName of
                   None \<Rightarrow> \<lparr>PkgName = packageName, PkgImports = [],
                             IsMain = (packageName = ''main'')\<rparr>
                 | Some p \<Rightarrow> p);
          pkg' = pkg\<lparr>PkgImports := PkgImports pkg @ map (\<lambda>v. Trim v ''"'') (Imports file)\<rparr>;
          analysis' = analysis\<lparr>Packages := AList.update packageName pkg' (Packages analysis)\<rparr>
      in fold (analyzeDecl packageName filePath) (Decls file) analysis')\<close>

definition shouldSkipDir :: "string \<Rightarrow> bool" where
  "shouldSkipDir dirName =
     (dirName \<in> set [''vendor'', ''.git'', ''.vscode'', ''.idea'', ''node_modules'',
                      ''__pycache__'', ''.pytest_cache'', ''build'', ''dist'']
      \<or> HasPrefix dirName ''.'')"

text \<open>The score of a pattern family counts the keywords that occur in some package name.\<close>

definition keywordHits :: "string list \<Rightarrow> string list \<Rightarrow> real" where
  "keywordHits patterns packages =
     real (length (filter (\<lambda>pattern. list_ex (\<lambda>pkg. Contains (ToLower pkg) pattern) packages)
                     patterns))"

definition cleanPatterns :: "string list" where
  "cleanPatterns =
     [''domain'', ''entity'', ''entities'', ''usecase'', ''usecases'', ''application'',
      ''repository'', ''repositories'', ''infrastructure'', ''handler'', ''handlers'',
      ''delivery'', ''transport'', ''service'', ''services'']"

definition detectCleanArchitecture :: "string list \<Rightarrow> real" where
  "detectCleanArchitecture packages =
     (let score = keywordHits cleanPatterns packages;
          total = real (length cleanPatterns)
      in if total = 0 then 0 else score / total)"

definition detectMVC :: "string list \<Rightarrow> real" where
  "detectMVC packages = keywordHits [''model'', ''view'', ''controller''] packages / 3"

definition layerPatterns :: "string list" where
  "layerPatterns =
     [''api'', ''web'', ''http'', ''business'', ''logic'', ''service'',
      ''data'', ''dal'', ''persistence'', ''common'', ''shared'', ''utils'']"

definition detectLayeredArchitecture :: "string list \<Rightarrow> real" where
  "detectLayeredArchitecture packages =
     (let score = keywordHits layerPatterns packages;
          total = real (length layerPatterns)
      in if total = 0 then 0 else score / total)"

definition detectMicroservicePattern :: "ProjectAnalysis \<Rightarrow> real" where
  "detectMicroservicePattern analysis =
     (let imports = concat (map (\<lambda>(name, pkg). PkgImports pkg) (Packages analysis));
          s1 = 0.3 * real (length (filter (\<lambda>imp. Contains imp ''grpc'' \<or> Contains imp ''protobuf'')
                                     imports));
          s2 = (if map_of (Packages analysis) ''main'' \<noteq> None then s1 + 0.2 else s1);
          s3 = s2 + 0.2 * real (length (filter (\<lambda>(pkgName, pkg).
                                     Contains (ToLower pkgName) ''config''
                                     \<or> Contains (ToLower pkgName) ''env'')
                                   (Packages analysis)))
      in if s3 > 1 then 1 else s3)"

definition detectDTOPatterns :: "ProjectAnalysis \<Rightarrow> string list" where
  "detectDTOPatterns analysis =
     map (\<lambda>(structName, structDef). DefName structDef)
       (filter (\<lambda>(structName, structDef).
                  (let lowerName = ToLower structName in
                   HasSuffix lowerName ''request'' \<or> HasSuffix lowerName ''req''
                   \<or> HasSuffix lowerName ''dto'' \<or> HasSuffix lowerName ''model''
                   \<or> HasSuffix lowerName ''entity'' \<or> HasSuffix lowerName ''response''
                   \<or> HasSuffix lowerName ''resp''))
          (Structs analysis))"

text \<open>\<open>detectArchitecturePattern\<close>: the pattern starts as \<open>unknown\<close> with confidence 0, then
  the clean-architecture score is taken as the maximum so far, and each later score replaces
  it when strictly greater.\<close>

definition detectArchitecturePattern :: "ProjectAnalysis \<Rightarrow> ArchitecturePattern" where
  "detectArchitecturePattern analysis =
     (let pattern0 = \<lparr>ArchType = ''unknown'', Layers = [], DTOPatterns = [], Confidence = 0\<rparr>;
          packageNames = filter (\<lambda>name. name \<noteq> ''main'') (map fst (Packages analysis));
          cleanScore = detectCleanArchitecture packageNames;
          mvcScore = detectMVC packageNames;
          layeredScore = detectLayeredArchitecture packageNames;
          microserviceScore = detectMicroservicePattern analysis;
          maxScore1 = cleanScore;
          pattern1 = pattern0\<lparr>ArchType := ''clean'', Confidence := cleanScore\<rparr>;
          (maxScore2, pattern2) =
            (if mvcScore > maxScore1
             then (mvcScore, pattern1\<lparr>ArchType := ''mvc'', Confidence := mvcScore\<rparr>)
             else (maxScore1, pattern1));
          (maxScore3, pattern3) =
            (if layeredScore > maxScore2
             then (layeredScore, pattern2\<lparr>ArchType := ''layered'', Confidence := layeredScore\<rparr>)
             else (maxScore2, pattern2));
          pattern4 =
            (if microserviceScore > maxScore3
             then pattern3\<lparr>ArchType := ''microservice'', Confidence := microserviceScore\<rparr>
             else pattern3)
      in pattern4\<lparr>Layers := packageNames, DTOPatterns := detectDTOPatterns analysis\<rparr>)"

section \<open>Body detector\<close>

record BodyDetectionResult =
  HasBody :: bool
  BodyExample :: string
  StructName :: string

fun checkGinJSONBinding :: "node \<Rightarrow> bool" where
  "checkGinJSONBinding (CallExpr (SelectorExpr x methodName) args) =
     (methodName = ''ShouldBindJSON'' \<or> methodName = ''BindJSON''
      \<or> methodName = ''ShouldBind'' \<or> methodName = ''Bind'')"
| "checkGinJSONBinding _ = False"

fun checkJSONDecoder :: "node \<Rightarrow> bool" where
  "checkJSONDecoder (CallExpr (SelectorExpr (CallExpr (SelectorExpr y innerName) innerArgs) name) args) =
     (name = ''Decode'' \<and> innerName = ''NewDecoder'')"
| "checkJSONDecoder _ = False"

fun checkJSONUnmarshal :: "node \<Rightarrow> bool" where
  "checkJSONUnmarshal (CallExpr (SelectorExpr (Ident ident) name) args) =
     (ident = ''json'' \<and> name = ''Unmarshal'')"
| "checkJSONUnmarshal _ = False"

fun checkIOReadAll :: "node \<Rightarrow> bool" where
  "checkIOReadAll (CallExpr (SelectorExpr (Ident ident) name) args) =
     (ident = ''io'' \<and> name = ''ReadAll'')"
| "checkIOReadAll _ = False"

text \<open>\<open>analyzeInlineStruct\<close>: one entry per field, named after the first of its names.\<close>

fun inlineFieldInfo :: "field \<Rightarrow> StructFieldInfo" where
  "inlineFieldInfo (Field names ty tag) =
     (let name = (case names of [] \<Rightarrow> '''' | n # ns \<Rightarrow> n);
          jsonTag =
            (case tag of
               None \<Rightarrow> ''''
             | Some v \<Rightarrow>
                 (let t = Trim v [CHR 0x60] in
                  if Contains t ''json:'' then extractJSONTag t else ''''))
      in \<lparr>FieldName = name, FieldType = getTypeString ty,
          JSONTag = (if jsonTag = '''' then ToLower name else jsonTag),
          Required = True\<rparr>)"

definition analyzeInlineStruct :: "field list \<Rightarrow> string \<Rightarrow> StructInfo" where
  "analyzeInlineStruct flds name = \<lparr>InfoName = name, InfoFields = map inlineFieldInfo flds\<rparr>"

text \<open>\<open>scanStructUsage\<close>: the visitor assigns \<open>structInfo\<close> at a declaration or an assignment
  with an inline struct type, and tells \<open>Inspect\<close> not to enter that node.\<close>

fun firstStructSpec :: "spec list \<Rightarrow> field list option" where
  "firstStructSpec [] = None"
| "firstStructSpec (ValueSpec names (Some (StructType flds)) vals # specs) = Some flds"
| "firstStructSpec (sp # specs) = firstStructSpec specs"

fun firstStructLit :: "node list \<Rightarrow> field list option" where
  "firstStructLit [] = None"
| "firstStructLit (CompositeLit (Some (StructType flds)) elts # rhs) = Some flds"
| "firstStructLit (x # rhs) = firstStructLit rhs"

fun structUsageVisitor :: "node \<Rightarrow> StructInfo option \<Rightarrow> bool \<times> StructInfo option" where
  "structUsageVisitor (GenDecl specs) structInfo =
     (case firstStructSpec specs of
        Some flds \<Rightarrow> (False, Some (analyzeInlineStruct flds ''InlineStruct''))
      | None \<Rightarrow> (True, structInfo))"
| "structUsageVisitor (AssignStmt lhs rhs) structInfo =
     (case firstStructLit rhs of
        Some flds \<Rightarrow> (False, Some (analyzeInlineStruct flds ''InlineStruct''))
      | None \<Rightarrow> (True, structInfo))"
| "structUsageVisitor n structInfo = (True, structInfo)"

definition scanStructUsage :: "node \<Rightarrow> StructInfo option" where
  "scanStructUsage body = inspect structUsageVisitor body None"

definition generateJSONFromStruct :: "StructInfo \<Rightarrow> string" where
  \<open>generateJSONFromStruct structInfo =
     (if InfoFields structInfo = [] then ''{}''
      else ''{'' @ Join (map (\<lambda>fld. ''"'' @ JSONTag fld @ ''":'' @ generateValueForType (FieldType fld))
                          (InfoFields structInfo)) '','' @ ''}'')\<close>

text \<open>\<open>generateJSONFromProjectStruct\<close> leaves out the fields whose \<open>JSONTag\<close> is \<open>-\<close>.\<close>

definition generateJSONFromProjectStruct :: "StructDefinition \<Rightarrow> string" where
  \<open>generateJSONFromProjectStruct structDef =
     (if DefFields structDef = [] then ''{}''
      else ''{'' @ Join (map (\<lambda>fld. ''"'' @ (if JSONTag fld = '''' then ToLower (FieldName fld)
                                             else JSONTag fld)
                                    @ ''":'' @ generateValueForType (FieldType fld))
                          (filter (\<lambda>fld. JSONTag fld \<noteq> ''-'') (DefFields structDef))) '',''
           @ ''}'')\<close>

definition isStructNameMatch :: "string \<Rightarrow> string \<Rightarrow> bool" where
  "isStructNameMatch varName structName =
     (let cleanStructName =
            (case find (\<lambda>suffix. HasSuffix structName suffix)
                    [''request'', ''req'', ''dto'', ''model'', ''entity'', ''response'', ''resp''] of
               Some suffix \<Rightarrow> TrimSuffix structName suffix
             | None \<Rightarrow> structName)
      in Contains varName cleanStructName \<or> Contains cleanStructName varName)"

definition structMatches :: "string \<Rightarrow> StructDefinition \<Rightarrow> bool" where
  "structMatches identName structDef =
     (let lowerStructName = ToLower (DefName structDef);
          lowerVarName = ToLower identName
      in Contains lowerStructName lowerVarName \<or> Contains lowerVarName lowerStructName
         \<or> isStructNameMatch lowerVarName lowerStructName)"

fun unaryIdent :: "node \<Rightarrow> string option" where
  "unaryIdent (UnaryExpr op (Ident name)) = Some name"
| "unaryIdent _ = None"

fun callArgs :: "node \<Rightarrow> node list" where
  "callArgs (CallExpr f args) = args"
| "callArgs _ = []"

fun dtoLoop :: "string list \<Rightarrow> string \<Rightarrow> ProjectAnalysis \<Rightarrow> string" where
  "dtoLoop [] targetTypeName analysis = ''''"
| "dtoLoop (dtoPattern # rest) targetTypeName analysis =
     (if Contains (ToLower dtoPattern) (ToLower targetTypeName) then
        (case map_of (Structs analysis) dtoPattern of
           Some structDef \<Rightarrow> generateJSONFromProjectStruct structDef
         | None \<Rightarrow> dtoLoop rest targetTypeName analysis)
      else dtoLoop rest targetTypeName analysis)"

text \<open>\<open>generateBodyFromProjectAnalysis\<close>: the first argument, then the second, is looked up
  among the structs when it is the address of an identifier; the first struct that matches
  is rendered.  The last identifier seen is then tried against the DTO patterns.\<close>

definition generateBodyFromProjectAnalysis :: "node \<Rightarrow> ProjectAnalysis \<Rightarrow> string" where
  "generateBodyFromProjectAnalysis call analysis =
     (case callArgs call of
        [] \<Rightarrow> ''''
      | arg0 # rest \<Rightarrow>
          (let (found0, target0) =
                 (case unaryIdent arg0 of
                    Some name \<Rightarrow> (find (structMatches name) (map snd (Structs analysis)), name)
                  | None \<Rightarrow> (None, ''''))
           in case found0 of
                Some structDef \<Rightarrow> generateJSONFromProjectStruct structDef
              | None \<Rightarrow>
                  (let (found1, target1) =
                         (case rest of
                            [] \<Rightarrow> (None, target0)
                          | arg1 # rest' \<Rightarrow>
                              (case unaryIdent arg1 of
                                 Some name \<Rightarrow>
                                   (find (structMatches name) (map snd (Structs analysis)), name)
                               | None \<Rightarrow> (None, target0)))
                   in case found1 of
                        Some structDef \<Rightarrow> generateJSONFromProjectStruct structDef
                      | None \<Rightarrow>
                          (if target1 \<noteq> '''' then
                             dtoLoop (DTOPatterns (ArchPattern analysis)) target1 analysis
                           else ''''))))"

text \<open>\<open>generateSmartBodyExample\<close>; its first parameter is the value of the package variable
  \<open>globalProjectAnalysis\<close>, \<open>None\<close> for \<open>nil\<close>.\<close>

definition generateSmartBodyExample ::
  "ProjectAnalysis option \<Rightarrow> node \<Rightarrow> StructInfo option \<Rightarrow> string" where
  \<open>generateSmartBodyExample globalProjectAnalysis call structInfo =
     (let body = (case globalProjectAnalysis of
                    Some analysis \<Rightarrow> generateBodyFromProjectAnalysis call analysis
                  | None \<Rightarrow> '''')
      in if body \<noteq> '''' then body
         else if (case structInfo of Some si \<Rightarrow> InfoFields si \<noteq> [] | None \<Rightarrow> False) then
           (case structInfo of Some si \<Rightarrow> generateJSONFromStruct si | None \<Rightarrow> '''')
         else
           (case callArgs call of
              [] \<Rightarrow> ''{"data":"string","parameters":{}}''
            | arg0 # rest \<Rightarrow>
                (case unaryIdent arg0 of
                   Some name \<Rightarrow> generateBodyByVariableName name
                 | None \<Rightarrow>
                     (case rest of
                        [] \<Rightarrow> ''{"data":"string","parameters":{}}''
                      | arg1 # rest' \<Rightarrow>
                          (case unaryIdent arg1 of
                             Some name \<Rightarrow> generateBodyByVariableName name
                           | None \<Rightarrow> ''{"data":"string","parameters":{}}'')))))\<close>

text \<open>\<open>DetectJSONBody\<close>: the visitor assigns \<open>result\<close> at every call that is one of the four
  idioms and tells \<open>Inspect\<close> not to enter that call.\<close>

definition detectVisitor ::
  "ProjectAnalysis option \<Rightarrow> StructInfo option \<Rightarrow> node \<Rightarrow> BodyDetectionResult
   \<Rightarrow> bool \<times> BodyDetectionResult" where
  "detectVisitor globalProjectAnalysis structInfo n result =
     (case n of
        CallExpr f args \<Rightarrow>
          if checkGinJSONBinding n then
            (False, result\<lparr>HasBody := True,
               BodyExample := generateSmartBodyExample globalProjectAnalysis n structInfo\<rparr>)
          else if checkJSONDecoder n then
            (False, result\<lparr>HasBody := True,
               BodyExample := generateSmartBodyExample globalProjectAnalysis n structInfo\<rparr>)
          else if checkJSONUnmarshal n then
            (False, result\<lparr>HasBody := True,
               BodyExample := generateSmartBodyExample globalProjectAnalysis n structInfo\<rparr>)
          else if checkIOReadAll n then
            (False, result\<lparr>HasBody := True,
               BodyExample := generateSmartBodyExample globalProjectAnalysis n structInfo\<rparr>)
          else (True, result)
      | _ \<Rightarrow> (True, result))"

fun DetectJSONBody :: "ProjectAnalysis option \<Rightarrow> node \<Rightarrow> BodyDetectionResult" where
  "DetectJSONBody globalProjectAnalysis (FuncDecl name sig (Some body)) =
     inspect (detectVisitor globalProjectAnalysis (scanStructUsage body)) body
       \<lparr>HasBody = False, BodyExample = '''', StructName = ''''\<rparr>"
| "DetectJSONBody globalProjectAnalysis fn =
     \<lparr>HasBody = False, BodyExample = '''', StructName = ''''\<rparr>"

definition DetectBodyFromFunction :: "ProjectAnalysis option \<Rightarrow> node \<Rightarrow> string" where
  "DetectBodyFromFunction globalProjectAnalysis fn =
     (let result = DetectJSONBody globalProjectAnalysis fn in
      if HasBody result then BodyExample result else '''')"

text \<open>\<open>scanFunctionsForBodies\<close>: the detected body of every function declaration of a file,
  by function name.\<close>

fun recordFunctionBody ::
  "ProjectAnalysis option \<Rightarrow> node \<Rightarrow> (string \<rightharpoonup> string) \<Rightarrow> (string \<rightharpoonup> string)" where
  "recordFunctionBody globalProjectAnalysis (FuncDecl funcName sig body) functionBodies =
     (let detectedBody = DetectBodyFromFunction globalProjectAnalysis (FuncDecl funcName sig body)
      in if detectedBody \<noteq> '''' then functionBodies(funcName \<mapsto> detectedBody)
         else functionBodies)"
| "recordFunctionBody globalProjectAnalysis decl functionBodies = functionBodies"

definition scanFunctionsForBodies ::
  "ProjectAnalysis option \<Rightarrow> ast_file \<Rightarrow> (string \<rightharpoonup> string)" where
  "scanFunctionsForBodies globalProjectAnalysis file =
     fold (recordFunctionBody globalProjectAnalysis) (Decls file) Map.empty"

section \<open>Endpoints\<close>

record GraphQLInfo =
  Operation :: string
  Schema :: string
  Query :: string
  Variables :: string

text \<open>\<open>Headers\<close> is a Go map, \<open>GraphQL\<close> a pointer that may be \<open>nil\<close>.\<close>

record Endpoint =
  Method :: string
  Path :: string
  SourceFile :: string
  Handler :: string
  Desc :: string
  Headers :: "(string \<times> string) list"
  BodyRaw :: string
  Tags :: "string list"
  Type :: string
  GraphQL :: "GraphQLInfo option"

definition verbSet :: "string list" where
  "verbSet = [''GET'', ''POST'', ''PUT'', ''DELETE'', ''PATCH'', ''HEAD'', ''OPTIONS'']"

section \<open>Regular expressions\<close>

text \<open>
  The annotation patterns are built from literal text, repetitions of one character class,
  capture groups, an optional group, an alternative and the end of the text.  \<open>Lit\<close> compares
  without regard to case, as all patterns carry the flag \<open>i\<close>.  \<open>backtrack\<close> is a backtracking
  matcher: it matches a pattern at the head of the text and hands the captures and the rest
  of the text to the continuation \<open>k\<close>, which matches what follows the pattern; when the
  continuation fails, the next way to match the pattern is tried.  A repetition takes as
  much as it can first, and an optional group is tried before it is left out.  A match of
  package \<open>regexp\<close> is what such a matcher finds first at the leftmost position where it
  finds anything; \<open>FindStringSubmatch\<close> returns the matched text followed by the text of
  every group, empty for a group that took no part.
\<close>

datatype regex =
    Lit string
  | Rep0 "char \<Rightarrow> bool"
  | Rep1 "char \<Rightarrow> bool"
  | Cap nat regex
  | Seq regex regex
  | Opt regex
  | Alt regex regex
  | Eot

fun litPrefix :: "string \<Rightarrow> string \<Rightarrow> string option" where
  "litPrefix [] s = Some s"
| "litPrefix (a # l) [] = None"
| "litPrefix (a # l) (c # s) =
     (if toLowerChar a = toLowerChar c then litPrefix l s else None)"

fun repeat :: "(char \<Rightarrow> bool) \<Rightarrow> string \<Rightarrow> (string \<Rightarrow> 'a option) \<Rightarrow> 'a option" where
  "repeat cls [] k = k []"
| "repeat cls (c # s) k =
     (if cls c then (case repeat cls s k of Some m \<Rightarrow> Some m | None \<Rightarrow> k (c # s))
      else k (c # s))"

fun backtrack ::
  "regex \<Rightarrow> string list \<times> string \<Rightarrow> (string list \<times> string \<Rightarrow> 'a option) \<Rightarrow> 'a option" where
  "backtrack (Lit l) (caps, s) k =
     (case litPrefix l s of Some s' \<Rightarrow> k (caps, s') | None \<Rightarrow> None)"
| "backtrack (Rep0 cls) (caps, s) k = repeat cls s (\<lambda>s'. k (caps, s'))"
| "backtrack (Rep1 cls) (caps, s) k =
     (case s of
        [] \<Rightarrow> None
      | c # s' \<Rightarrow> if cls c then repeat cls s' (\<lambda>s''. k (caps, s'')) else None)"
| "backtrack (Cap i r) (caps, s) k =
     backtrack r (caps, s)
       (\<lambda>(caps', s'). k (caps'[i := take (length s - length s') s], s'))"
| "backtrack (Seq r1 r2) st k = backtrack r1 st (\<lambda>st'. backtrack r2 st' k)"
| "backtrack (Opt r) st k =
     (case backtrack r st k of Some m \<Rightarrow> Some m | None \<Rightarrow> k st)"
| "backtrack (Alt r1 r2) st k =
     (case backtrack r1 st k of Some m \<Rightarrow> Some m | None \<Rightarrow> backtrack r2 st k)"
| "backtrack Eot (caps, s) k = (if s = [] then k (caps, s) else None)"

fun NumSubexp :: "regex \<Rightarrow> nat" where
  "NumSubexp (Cap i r) = max i (NumSubexp r)"
| "NumSubexp (Seq r1 r2) = max (NumSubexp r1) (NumSubexp r2)"
| "NumSubexp (Opt r) = NumSubexp r"
| "NumSubexp (Alt r1 r2) = max (NumSubexp r1) (NumSubexp r2)"
| "NumSubexp _ = 0"

definition matchAt :: "regex \<Rightarrow> string \<Rightarrow> string list option" where
  "matchAt re s =
     backtrack re (replicate (Suc (NumSubexp re)) '''', s)
       (\<lambda>(caps, rest). Some (caps[0 := take (length s - length rest) s]))"

fun FindStringSubmatch :: "regex \<Rightarrow> string \<Rightarrow> string list option" where
  "FindStringSubmatch re [] = matchAt re []"
| "FindStringSubmatch re (c # s) =
     (case matchAt re (c # s) of
        Some m \<Rightarrow> Some m
      | None \<Rightarrow> FindStringSubmatch re s)"

definition MatchString :: "regex \<Rightarrow> string \<Rightarrow> bool" where
  "MatchString re s = (FindStringSubmatch re s \<noteq> None)"

text \<open>The character classes: \<open>\s\<close>, \<open>\S\<close>, \<open>[A-Z]\<close> under the flag \<open>i\<close>, \<open>.\<close>, \<open>[^:]\<close> and
  \<open>[A-Za-z0-9_.\-\/]\<close>.  They are sets of ASCII bytes, and a literal is compared by the ASCII
  case mapping: the letters outside ASCII that the flag \<open>i\<close> folds onto an ASCII letter are
  not matched.\<close>

definition reSpace :: "char \<Rightarrow> bool" where
  "reSpace c = (c \<in> set [CHR 0x09, CHR 0x0A, CHR 0x0C, CHR 0x0D, CHR '' ''])"

definition reNotSpace :: "char \<Rightarrow> bool" where
  "reNotSpace c = (\<not> reSpace c)"

definition reLetter :: "char \<Rightarrow> bool" where
  "reLetter c = (c \<in> set upper_letters \<or> c \<in> set lower_letters)"

definition reAny :: "char \<Rightarrow> bool" where
  "reAny c = (c \<noteq> CHR 0x0A)"

definition reNotColon :: "char \<Rightarrow> bool" where
  "reNotColon c = (c \<noteq> CHR '':'')"

definition reTagChar :: "char \<Rightarrow> bool" where
  "reTagChar c =
     (c \<in> set upper_letters \<or> c \<in> set lower_letters \<or> c \<in> set digit_chars
      \<or> c \<in> set ''_.-/'')"

text \<open>\<open>(?i)@route\s+([A-Z]+)\s+(\S+)(?:\s+(.*))?$\<close>, and the same for \<open>@rest\<close>.\<close>

definition methodPathDesc :: "string \<Rightarrow> regex" where
  "methodPathDesc keyword =
     Seq (Lit keyword) (Seq (Rep1 reSpace) (Seq (Cap 1 (Rep1 reLetter)) (Seq (Rep1 reSpace)
       (Seq (Cap 2 (Rep1 reNotSpace))
         (Seq (Opt (Seq (Rep1 reSpace) (Cap 3 (Rep0 reAny)))) Eot)))))"

definition routeRe :: regex where
  "routeRe = methodPathDesc ''@route''"

definition restRe :: regex where
  "restRe = methodPathDesc ''@rest''"

text \<open>\<open>(?i)@header\s+([^:]+):\s*(.+)$\<close>\<close>

definition headerRe :: regex where
  "headerRe =
     Seq (Lit ''@header'') (Seq (Rep1 reSpace) (Seq (Cap 1 (Rep1 reNotColon)) (Seq (Lit '':'')
       (Seq (Rep0 reSpace) (Seq (Cap 2 (Rep1 reAny)) Eot)))))"

text \<open>\<open>(?i)@body\s+(.+)$\<close>, and the same for \<open>@schema\<close>, \<open>@query\<close> and \<open>@variables\<close>.\<close>

definition keywordText :: "string \<Rightarrow> regex" where
  "keywordText keyword = Seq (Lit keyword) (Seq (Rep1 reSpace) (Seq (Cap 1 (Rep1 reAny)) Eot))"

definition bodyRe :: regex where
  "bodyRe = keywordText ''@body''"

definition schemaRe :: regex where
  "schemaRe = keywordText ''@schema''"

definition queryRe :: regex where
  "queryRe = keywordText ''@query''"

definition variablesRe :: regex where
  "variablesRe = keywordText ''@variables''"

text \<open>\<open>(?i)@tag\s+([A-Za-z0-9_.\-\/]+)$\<close>\<close>

definition tagRe :: regex where
  "tagRe = Seq (Lit ''@tag'') (Seq (Rep1 reSpace) (Seq (Cap 1 (Rep1 reTagChar)) Eot))"

text \<open>\<open>(?i)@graphql\s+(query|mutation|subscription)\s+(\S+)(?:\s+(.*))?$\<close>\<close>

definition graphqlRe :: regex where
  "graphqlRe =
     Seq (Lit ''@graphql'') (Seq (Rep1 reSpace)
       (Seq (Cap 1 (Alt (Lit ''query'') (Alt (Lit ''mutation'') (Lit ''subscription''))))
         (Seq (Rep1 reSpace) (Seq (Cap 2 (Rep1 reNotSpace))
           (Seq (Opt (Seq (Rep1 reSpace) (Cap 3 (Rep0 reAny)))) Eot)))))"

section \<open>Annotation parser\<close>

record route =
  rMethod :: string
  rPath :: string
  rDesc :: string
  rType :: string
  rOperation :: string

definition isAnnotation :: "string \<Rightarrow> bool" where
  "isAnnotation line =
     (MatchString headerRe line \<or> MatchString bodyRe line \<or> MatchString tagRe line
      \<or> MatchString schemaRe line \<or> MatchString queryRe line \<or> MatchString variablesRe line
      \<or> MatchString graphqlRe line \<or> MatchString restRe line \<or> MatchString routeRe line)"

text \<open>The first pass over a comment group: the trimmed, non-empty lines that match some
  pattern.\<close>

definition collectAnnotations :: "string \<Rightarrow> string list" where
  "collectAnnotations text =
     filter isAnnotation
       (filter (\<lambda>line. line \<noteq> '''') (map TrimSpace (Split text (CHR 0x0A))))"

definition methodRoute :: "string list \<Rightarrow> route" where
  "methodRoute m =
     (let method = ToUpper (m ! 1) in
      \<lparr>rMethod = (if method \<in> set verbSet then method else ''ANY''), rPath = m ! 2,
       rDesc = (if length m \<ge> 4 then TrimSpace (m ! 3) else ''''),
       rType = ''REST'', rOperation = ''''\<rparr>)"

text \<open>The routes a line declares: the three patterns are tried one after the other, and
  each that matches adds a route.\<close>

definition lineRoutes :: "string \<Rightarrow> route list" where
  "lineRoutes line =
     (case FindStringSubmatch graphqlRe line of
        Some m \<Rightarrow>
          [\<lparr>rMethod = ''POST'', rPath = m ! 2,
            rDesc = (if length m \<ge> 4 then TrimSpace (m ! 3) else ''''),
            rType = ''GraphQL'', rOperation = ToLower (m ! 1)\<rparr>]
      | None \<Rightarrow> [])
     @ (case FindStringSubmatch restRe line of Some m \<Rightarrow> [methodRoute m] | None \<Rightarrow> [])
     @ (case FindStringSubmatch routeRe line of Some m \<Rightarrow> [methodRoute m] | None \<Rightarrow> [])"

record accumulated =
  accHeaders :: "(string \<times> string) list"
  accBody :: string
  accTags :: "string list"
  accGraphQL :: "GraphQLInfo option"

definition emptyGraphQL :: GraphQLInfo where
  "emptyGraphQL = \<lparr>Operation = '''', Schema = '''', Query = '''', Variables = ''''\<rparr>"

definition orEmpty :: "GraphQLInfo option \<Rightarrow> GraphQLInfo" where
  "orEmpty g = (case g of None \<Rightarrow> emptyGraphQL | Some info \<Rightarrow> info)"

text \<open>The second loop over the annotations: a line counts for the first of header, body,
  tag, schema, query and variables that matches it.\<close>

definition accumulate :: "string \<Rightarrow> accumulated \<Rightarrow> accumulated" where
  "accumulate line acc =
     (case FindStringSubmatch headerRe line of
        Some m \<Rightarrow>
          (let k = TrimSpace (m ! 1); v = TrimSpace (m ! 2) in
           if k \<noteq> '''' then acc\<lparr>accHeaders := AList.update k v (accHeaders acc)\<rparr> else acc)
      | None \<Rightarrow>
     (case FindStringSubmatch bodyRe line of
        Some m \<Rightarrow> acc\<lparr>accBody := TrimSpace (m ! 1)\<rparr>
      | None \<Rightarrow>
     (case FindStringSubmatch tagRe line of
        Some m \<Rightarrow>
          (let tag = TrimSpace (m ! 1) in
           if tag \<noteq> '''' \<and> tag \<notin> set (accTags acc)
           then acc\<lparr>accTags := accTags acc @ [tag]\<rparr> else acc)
      | None \<Rightarrow>
     (case FindStringSubmatch schemaRe line of
        Some m \<Rightarrow> acc\<lparr>accGraphQL := Some ((orEmpty (accGraphQL acc))\<lparr>Schema := TrimSpace (m ! 1)\<rparr>)\<rparr>
      | None \<Rightarrow>
     (case FindStringSubmatch queryRe line of
        Some m \<Rightarrow> acc\<lparr>accGraphQL := Some ((orEmpty (accGraphQL acc))\<lparr>Query := TrimSpace (m ! 1)\<rparr>)\<rparr>
      | None \<Rightarrow>
     (case FindStringSubmatch variablesRe line of
        Some m \<Rightarrow>
          acc\<lparr>accGraphQL := Some ((orEmpty (accGraphQL acc))\<lparr>Variables := TrimSpace (m ! 1)\<rparr>)\<rparr>
      | None \<Rightarrow> acc))))))"

text \<open>The last loop: one endpoint per route, each with the accumulated headers, body and
  tags.  The first GraphQL route creates the GraphQL record when there is none and sets its
  operation when that is empty; the record is then passed on to the routes that follow.\<close>

fun buildEndpoints :: "route list \<Rightarrow> accumulated \<Rightarrow> string \<Rightarrow> Endpoint list" where
  "buildEndpoints [] acc sourcePath = []"
| "buildEndpoints (r # routes) acc sourcePath =
     (if rType r = ''GraphQL'' then
        (let g0 = orEmpty (accGraphQL acc);
             g1 = (if Operation g0 = '''' then g0\<lparr>Operation := rOperation r\<rparr> else g0)
         in \<lparr>Method = rMethod r, Path = rPath r, SourceFile = sourcePath, Handler = '''',
              Desc = rDesc r, Headers = accHeaders acc, BodyRaw = accBody acc,
              Tags = accTags acc, Type = ''GraphQL'', GraphQL = Some g1\<rparr>
            # buildEndpoints routes (acc\<lparr>accGraphQL := Some g1\<rparr>) sourcePath)
      else
        \<lparr>Method = rMethod r, Path = rPath r, SourceFile = sourcePath, Handler = '''',
         Desc = rDesc r, Headers = accHeaders acc, BodyRaw = accBody acc,
         Tags = accTags acc, Type = ''REST'', GraphQL = None\<rparr>
        # buildEndpoints routes acc sourcePath)"

text \<open>The routes a comment group declares, and what its other annotations add up to.\<close>

definition groupRoutes :: "string \<Rightarrow> route list" where
  "groupRoutes text = concat (map lineRoutes (collectAnnotations text))"

definition groupAccumulated :: "string \<Rightarrow> accumulated" where
  "groupAccumulated text =
     fold accumulate (collectAnnotations text)
       \<lparr>accHeaders = [], accBody = '''', accTags = [], accGraphQL = None\<rparr>"

definition scanCommentGroup :: "string \<Rightarrow> string \<Rightarrow> Endpoint list" where
  "scanCommentGroup text sourcePath =
     buildEndpoints (groupRoutes text) (groupAccumulated text) sourcePath"

definition scanAnnotationsFromFile :: "ast_file \<Rightarrow> string \<Rightarrow> Endpoint list" where
  "scanAnnotationsFromFile file sourcePath =
     concat (map (\<lambda>text. scanCommentGroup text sourcePath) (Comments file))"

section \<open>Route call recognizer\<close>

definition isVerb :: "string \<Rightarrow> bool" where
  "isVerb s = (ToUpper s \<in> set verbSet)"

fun guessHandlerName :: "node \<Rightarrow> string" where
  "guessHandlerName (CallExpr f (a0 # Ident name # rest)) = name"
| "guessHandlerName (CallExpr f (a0 # SelectorExpr x sel # rest)) = sel"
| "guessHandlerName _ = ''''"

text \<open>
  \<open>strconv.Unquote\<close> belongs to the Go library; the recognizer takes it as the parameter
  \<open>Unquote\<close>, \<open>None\<close> standing for an error.  \<open>simpleUnquote\<close> is \<open>strconv.Unquote\<close> on the
  string literals without escape sequences, and is used where a concrete source file is
  evaluated.
\<close>

definition simpleUnquote :: "string \<Rightarrow> string option" where
  \<open>simpleUnquote v =
     (if length v \<ge> 2 \<and> hd v = CHR ''"'' \<and> last v = CHR ''"''
         \<and> list_all (\<lambda>c. c \<noteq> CHR ''"'' \<and> c \<noteq> CHR 0x5C \<and> c \<noteq> CHR 0x0A) (butlast (tl v))
      then Some (butlast (tl v))
      else if length v \<ge> 2 \<and> hd v = CHR 0x60 \<and> last v = CHR 0x60
         \<and> list_all (\<lambda>c. c \<noteq> CHR 0x60 \<and> c \<noteq> CHR 0x0D) (butlast (tl v))
      then Some (butlast (tl v))
      else None)\<close>

fun stringArg :: "(string \<Rightarrow> string option) \<Rightarrow> node \<Rightarrow> string list" where
  "stringArg Unquote (BasicLit STRING v) =
     (case Unquote v of
        Some s \<Rightarrow> (let s' = ToUpper (TrimSpace s) in if s' \<in> set verbSet then [s'] else [])
      | None \<Rightarrow> [])"
| "stringArg Unquote a = []"

definition stringArgs :: "(string \<Rightarrow> string option) \<Rightarrow> node list \<Rightarrow> string list" where
  "stringArgs Unquote args = concat (map (stringArg Unquote) args)"

fun findChainedMethods :: "(string \<Rightarrow> string option) \<Rightarrow> node \<Rightarrow> string list" where
  "findChainedMethods Unquote (CallExpr (SelectorExpr x sel) args) =
     (if sel = ''Methods'' then stringArgs Unquote args
      else (case x of
              CallExpr (SelectorExpr y s2) innerArgs \<Rightarrow>
                if s2 = ''Methods'' then stringArgs Unquote innerArgs else []
            | _ \<Rightarrow> []))"
| "findChainedMethods Unquote n = []"

definition invalidPatterns :: "string list" where
  "invalidPatterns =
     [''/X-Request-ID'', ''/Content-Type'', ''/Authorization'', ''/Accept'', ''/User-Agent'']"

definition isValidEndpointPath :: "string \<Rightarrow> bool" where
  "isValidEndpointPath path =
     (if path = '''' then False
      else if \<not> HasPrefix path ''/'' then False
      else if list_ex (\<lambda>invalid. EqualFold path invalid) invalidPatterns then False
      else if CountChar path (CHR ''-'') > 0 \<and> CountChar path (CHR ''/'') = 1
              \<and> (let pathPart = TrimPrefix path ''/'' in
                   Contains pathPart ''-'' \<and> Title pathPart = pathPart) then False
      else if length (TrimPrefix path ''/'') < 2 then False
      else True)"

text \<open>The test every block of the recognizer makes on the arguments of a call: there is a
  first argument, it is a string literal, \<open>Unquote\<close> succeeds and the path is valid.\<close>

fun literalPath :: "(string \<Rightarrow> string option) \<Rightarrow> node list \<Rightarrow> string option" where
  "literalPath Unquote (BasicLit STRING v # rest) =
     (case Unquote v of
        Some p \<Rightarrow> if isValidEndpointPath p then Some p else None
      | None \<Rightarrow> None)"
| "literalPath Unquote args = None"

section \<open>ScanDir\<close>

text \<open>The variables \<open>endpoints\<close> and \<open>seen\<close> of \<open>ScanDir\<close>, which the closure \<open>add\<close> assigns.\<close>

record scan_state =
  endpoints :: "Endpoint list"
  seen :: "string set"

definition endpointKey :: "Endpoint \<Rightarrow> string" where
  "endpointKey e =
     ToUpper (Method e) @ '' '' @ Path e @ '' '' @ SourceFile e @ '' '' @ Join (Tags e) '',''"

definition add :: "Endpoint \<Rightarrow> scan_state \<Rightarrow> scan_state" where
  "add e0 st =
     (let e1 = (if Method e0 = '''' then e0\<lparr>Method := ''ANY''\<rparr> else e0);
          e2 = (if \<not> HasPrefix (Path e1) ''/'' then e1\<lparr>Path := ''/'' @ Path e1\<rparr> else e1);
          e3 = (if Type e2 = '''' then e2\<lparr>Type := ''REST''\<rparr> else e2);
          key = endpointKey e3
      in if key \<in> seen st then st
         else st\<lparr>seen := insert key (seen st),
                 endpoints := endpoints st @ [e3\<lparr>Method := ToUpper (Method e3)\<rparr>]\<rparr>)"

definition restEndpoint :: "string \<Rightarrow> string \<Rightarrow> string \<Rightarrow> string \<Rightarrow> string \<Rightarrow> Endpoint" where
  "restEndpoint m p file handler body =
     \<lparr>Method = m, Path = p, SourceFile = file, Handler = handler, Desc = '''', Headers = [],
      BodyRaw = body, Tags = [], Type = ''REST'', GraphQL = None\<rparr>"

definition handlerBody :: "(string \<rightharpoonup> string) \<Rightarrow> string \<Rightarrow> string" where
  "handlerBody globalFunctionBodies handler =
     (let found = (case globalFunctionBodies handler of Some b \<Rightarrow> b | None \<Rightarrow> '''') in
      if handler \<noteq> '''' \<and> found \<noteq> '''' then found else '''')"

text \<open>The special case \<open>X.HandleFunc(path, h).Methods(...)\<close>, seen from the outer call.\<close>

fun methodsBlock :: "(string \<Rightarrow> string option) \<Rightarrow> string \<Rightarrow> node \<Rightarrow> scan_state \<Rightarrow> scan_state" where
  "methodsBlock Unquote file (CallExpr (SelectorExpr (CallExpr (SelectorExpr y innerSel) innerArgs) sel) args) st =
     (if sel = ''Methods'' \<and> length args \<ge> 1
         \<and> (innerSel = ''HandleFunc'' \<or> innerSel = ''Handle'') \<and> length innerArgs \<ge> 1 then
        (case literalPath Unquote innerArgs of
           Some p \<Rightarrow>
             fold (\<lambda>m. add (restEndpoint m p file
                              (guessHandlerName (CallExpr (SelectorExpr y innerSel) innerArgs)) ''''))
               (stringArgs Unquote args) st
         | None \<Rightarrow> st)
      else st)"
| "methodsBlock Unquote file n st = st"

text \<open>\<open>r.Get("/path", handler)\<close> and the like.\<close>

fun verbBlock ::
  "(string \<Rightarrow> string option) \<Rightarrow> (string \<rightharpoonup> string) \<Rightarrow> string \<Rightarrow> node \<Rightarrow> scan_state \<Rightarrow> scan_state" where
  "verbBlock Unquote bodies file (CallExpr (SelectorExpr x sel) args) st =
     (if isVerb sel \<and> length args \<ge> 1 then
        (case literalPath Unquote args of
           Some p \<Rightarrow>
             (let handler = guessHandlerName (CallExpr (SelectorExpr x sel) args) in
              add (restEndpoint (ToUpper sel) p file handler (handlerBody bodies handler)) st)
         | None \<Rightarrow> st)
      else st)"
| "verbBlock Unquote bodies file n st = st"

text \<open>A call of \<open>POST\<close>: a GraphQL endpoint when the path looks like one.\<close>

fun postBlock ::
  "(string \<Rightarrow> string option) \<Rightarrow> (string \<rightharpoonup> string) \<Rightarrow> string \<Rightarrow> node \<Rightarrow> scan_state \<Rightarrow> scan_state" where
  "postBlock Unquote bodies file (CallExpr (SelectorExpr x sel) args) st =
     (if sel = ''POST'' \<and> length args \<ge> 1 then
        (case literalPath Unquote args of
           Some p \<Rightarrow>
             (let handler = guessHandlerName (CallExpr (SelectorExpr x sel) args) in
              if Contains (ToLower p) ''graphql'' \<or> Contains (ToLower p) ''graph''
                 \<or> HasSuffix (ToLower p) ''/query'' then
                add \<lparr>Method = ''POST'', Path = p, SourceFile = file, Handler = handler,
                     Desc = '''', Headers = [], BodyRaw = '''', Tags = [], Type = ''GraphQL'',
                     GraphQL = Some \<lparr>Operation = ''query'', Schema = '''', Query = '''',
                                      Variables = ''''\<rparr>\<rparr> st
              else add (restEndpoint ''POST'' p file handler (handlerBody bodies handler)) st)
         | None \<Rightarrow> st)
      else st)"
| "postBlock Unquote bodies file n st = st"

text \<open>\<open>*.HandleFunc("/path", h)\<close> and \<open>*.Handle("/path", h)\<close>: the two blocks differ in the
  selector name only.\<close>

fun handleBlock ::
  "string \<Rightarrow> (string \<Rightarrow> string option) \<Rightarrow> (string \<rightharpoonup> string) \<Rightarrow> string \<Rightarrow> node \<Rightarrow> scan_state
   \<Rightarrow> scan_state" where
  "handleBlock name Unquote bodies file (CallExpr (SelectorExpr x sel) args) st =
     (if sel = name \<and> length args \<ge> 1 then
        (case literalPath Unquote args of
           Some p \<Rightarrow>
             (let methods = findChainedMethods Unquote (CallExpr (SelectorExpr x sel) args);
                  handler = guessHandlerName (CallExpr (SelectorExpr x sel) args);
                  body = handlerBody bodies handler
              in if length methods = 0 then add (restEndpoint ''ANY'' p file handler body) st
                 else fold (\<lambda>m. add (restEndpoint m p file handler
                                       (if (m = ''POST'' \<or> m = ''PUT'' \<or> m = ''PATCH'') \<and> body \<noteq> ''''
                                        then body else '''')))
                        methods st)
         | None \<Rightarrow> st)
      else st)"
| "handleBlock name Unquote bodies file n st = st"

text \<open>The visitor of the second pass: the five blocks one after the other, at every call
  whose function is a selector; the children are always visited.\<close>

fun callVisitor ::
  "(string \<Rightarrow> string option) \<Rightarrow> (string \<rightharpoonup> string) \<Rightarrow> string \<Rightarrow> node \<Rightarrow> scan_state
   \<Rightarrow> bool \<times> scan_state" where
  "callVisitor Unquote bodies file (CallExpr (SelectorExpr x sel) args) st =
     (let call = CallExpr (SelectorExpr x sel) args;
          st1 = methodsBlock Unquote file call st;
          st2 = verbBlock Unquote bodies file call st1;
          st3 = postBlock Unquote bodies file call st2;
          st4 = handleBlock ''HandleFunc'' Unquote bodies file call st3;
          st5 = handleBlock ''Handle'' Unquote bodies file call st4
      in (True, st5))"
| "callVisitor Unquote bodies file n st = (True, st)"

text \<open>
  The directory tree as \<open>filepath.WalkDir\<close> presents it: a file with its path and the result
  of \<open>parser.ParseFile\<close> (\<open>None\<close> for a syntax error), a directory with its path, its name and
  its entries in the order they are read.  The callback of a walk skips a directory by its
  name and handles a file; an error ends the walk, and the variables the callback has
  assigned keep their values.
\<close>

datatype entry =
    FileEntry string "ast_file option"
  | DirEntry string string "entry list"

datatype error = ParseError string

fun walkDir ::
  "(string \<Rightarrow> bool) \<Rightarrow> (string \<Rightarrow> ast_file option \<Rightarrow> 's \<Rightarrow> 's \<times> error option) \<Rightarrow> entry \<Rightarrow> 's
   \<Rightarrow> 's \<times> error option"
and walkEntries ::
  "(string \<Rightarrow> bool) \<Rightarrow> (string \<Rightarrow> ast_file option \<Rightarrow> 's \<Rightarrow> 's \<times> error option) \<Rightarrow> entry list \<Rightarrow> 's
   \<Rightarrow> 's \<times> error option" where
  "walkDir skip onFile (FileEntry path parsed) s = onFile path parsed s"
| "walkDir skip onFile (DirEntry path name es) s =
     (if skip name then (s, None) else walkEntries skip onFile es s)"
| "walkEntries skip onFile [] s = (s, None)"
| "walkEntries skip onFile (e # es) s =
     (case walkDir skip onFile e s of
        (s', Some err) \<Rightarrow> (s', Some err)
      | (s', None) \<Rightarrow> walkEntries skip onFile es s')"

definition isGoSource :: "string \<Rightarrow> bool" where
  "isGoSource path = (HasSuffix path ''.go'' \<and> \<not> HasSuffix path ''_test.go'')"

definition scanSkipDir :: "string \<Rightarrow> bool" where
  "scanSkipDir name =
     (HasPrefix name ''.'' \<or> name = ''vendor'' \<or> name = ''node_modules'' \<or> name = ''bin''
      \<or> name = ''dist'')"

text \<open>
  \<open>AnalyzeProject\<close>: every source file is analysed, then the architecture pattern is
  detected; a file that does not parse makes the analysis fail.  Go visits the entries of a
  map in an order it leaves open and chooses anew at every \<open>range\<close>.  The parameter
  \<open>rangeOrder\<close> stands for the choice made in one run: the analysis is returned with its
  structs listed in the order in which the \<open>range\<close> loops of this run visit them.  All loops
  of one run are given the same order; a run in which two loops visit the map in different
  orders is not represented.
\<close>

definition analyzeEntry ::
  "string \<Rightarrow> ast_file option \<Rightarrow> ProjectAnalysis \<Rightarrow> ProjectAnalysis \<times> error option" where
  "analyzeEntry path parsed analysis =
     (if \<not> isGoSource path then (analysis, None)
      else (case parsed of
              None \<Rightarrow> (analysis, Some (ParseError path))
            | Some file \<Rightarrow> (analyzeFile path file analysis, None)))"

definition AnalyzeProject ::
  "((string \<times> StructDefinition) list \<Rightarrow> (string \<times> StructDefinition) list) \<Rightarrow> entry
   \<Rightarrow> error + ProjectAnalysis" where
  "AnalyzeProject rangeOrder rootDir =
     (case walkDir shouldSkipDir analyzeEntry rootDir
             \<lparr>Structs = [], Packages = [],
              ArchPattern = \<lparr>ArchType = '''', Layers = [], DTOPatterns = [], Confidence = 0\<rparr>\<rparr> of
        (analysis, Some err) \<Rightarrow> Inl err
      | (analysis, None) \<Rightarrow>
          (let analysis' = analysis\<lparr>Structs := rangeOrder (Structs analysis)\<rparr>
           in Inr (analysis'\<lparr>ArchPattern := detectArchitecturePattern analysis'\<rparr>)))"

text \<open>The callback of the first pass merges the bodies found in a file into
  \<open>globalFunctionBodies\<close>.\<close>

definition collectBodies ::
  "ProjectAnalysis option \<Rightarrow> string \<Rightarrow> ast_file option \<Rightarrow> (string \<rightharpoonup> string)
   \<Rightarrow> (string \<rightharpoonup> string) \<times> error option" where
  "collectBodies globalProjectAnalysis path parsed globalFunctionBodies =
     (if \<not> isGoSource path then (globalFunctionBodies, None)
      else (case parsed of
              None \<Rightarrow> (globalFunctionBodies, Some (ParseError path))
            | Some file \<Rightarrow>
                (globalFunctionBodies ++ scanFunctionsForBodies globalProjectAnalysis file,
                 None)))"

text \<open>The callback of the second pass: the annotations of the file are added first, then
  the calls found by \<open>ast.Inspect\<close> on the file, whose children are its declarations.\<close>

definition scanFile ::
  "(string \<Rightarrow> string option) \<Rightarrow> (string \<rightharpoonup> string) \<Rightarrow> string \<Rightarrow> ast_file option \<Rightarrow> scan_state
   \<Rightarrow> scan_state \<times> error option" where
  "scanFile Unquote globalFunctionBodies path parsed st =
     (if \<not> isGoSource path then (st, None)
      else (case parsed of
              None \<Rightarrow> (st, Some (ParseError path))
            | Some file \<Rightarrow>
                (let st1 = fold add (scanAnnotationsFromFile file path) st;
                     st2 = fold (inspect (callVisitor Unquote globalFunctionBodies path))
                             (Decls file) st1
                 in (st2, None))))"

text \<open>
  \<open>ScanDir\<close> takes the value of the package variable \<open>globalProjectAnalysis\<close> and returns its
  new value beside the result: the variable is assigned when the project analysis succeeds
  and keeps its value otherwise.  An error of the first pass gives no endpoints.
\<close>

definition ScanDir ::
  "(string \<Rightarrow> string option)
   \<Rightarrow> ((string \<times> StructDefinition) list \<Rightarrow> (string \<times> StructDefinition) list)
   \<Rightarrow> ProjectAnalysis option \<Rightarrow> entry
   \<Rightarrow> (Endpoint list \<times> error option) \<times> ProjectAnalysis option" where
  "ScanDir Unquote rangeOrder globalProjectAnalysis rootDir =
     (let global' = (case AnalyzeProject rangeOrder rootDir of
                       Inl projectErr \<Rightarrow> globalProjectAnalysis
                     | Inr projectAnalysis \<Rightarrow> Some projectAnalysis)
      in case walkDir scanSkipDir (collectBodies global') rootDir Map.empty of
           (globalFunctionBodies, Some err) \<Rightarrow> (([], Some err), global')
         | (globalFunctionBodies, None) \<Rightarrow>
             (case walkDir scanSkipDir (scanFile Unquote globalFunctionBodies) rootDir
                     \<lparr>endpoints = [], seen = {}\<rparr> of
                (st, err) \<Rightarrow> ((endpoints st, err), global')))"

section \<open>The specification's table of variable names\<close>





section \<open>Concrete projects and notions used in the statements\<close>

text \<open>A project with one package \<open>store\<close> that imports nothing.\<close>

definition plainProject :: ProjectAnalysis where
  "plainProject =
     \<lparr>Structs = [],
      Packages = [(''store'', \<lparr>PkgName = ''store'', PkgImports = [], IsMain = False\<rparr>)],
      ArchPattern = \<lparr>ArchType = '''', Layers = [], DTOPatterns = [], Confidence = 0\<rparr>\<rparr>"

text \<open>
  The file \<open>proj/main.go\<close> with
  \<^verbatim>\<open>func main() { x.HandleFunc("/v1/users", handler).Methods("GET","POST") }\<close>
\<close>

definition chainFile :: ast_file where
  \<open>chainFile =
     \<lparr>PackageName = ''main'', Imports = [], Comments = [],
      Decls =
        [FuncDecl ''main'' [] (Some (BlockStmt
           [ExprStmt (CallExpr
              (SelectorExpr
                 (CallExpr (SelectorExpr (Ident ''x'') ''HandleFunc'')
                    [BasicLit STRING ''"/v1/users"'', Ident ''handler''])
                 ''Methods'')
              [BasicLit STRING ''"GET"'', BasicLit STRING ''"POST"''])]))]\<rparr>\<close>

definition chainTree :: entry where
  "chainTree = DirEntry ''proj'' ''proj'' [FileEntry ''proj/main.go'' (Some chainFile)]"

text \<open>
  The file \<open>proj/main.go\<close> with
  \<^verbatim>\<open>type Credentials struct { Name string `json:"name"`; Password string `json:"-"` }\<close>
  \<^verbatim>\<open>func login() { var credentials Credentials; json.NewDecoder(r.Body).Decode(&credentials) }\<close>
  \<^verbatim>\<open>func main() { r.POST("/login", login) }\<close>
\<close>

definition loginFile :: ast_file where
  \<open>loginFile =
     \<lparr>PackageName = ''main'', Imports = [], Comments = [],
      Decls =
        [GenDecl [TypeSpec ''Credentials'' (StructType
           [Field [''Name''] (Ident ''string'') (Some ''`json:"name"`''),
            Field [''Password''] (Ident ''string'') (Some ''`json:"-"`'')])],
         FuncDecl ''login'' [] (Some (BlockStmt
           [DeclStmt (GenDecl [ValueSpec [''credentials''] (Some (Ident ''Credentials'')) []]),
            ExprStmt (CallExpr
              (SelectorExpr
                 (CallExpr (SelectorExpr (Ident ''json'') ''NewDecoder'')
                    [SelectorExpr (Ident ''r'') ''Body''])
                 ''Decode'')
              [UnaryExpr ''&'' (Ident ''credentials'')])])),
         FuncDecl ''main'' [] (Some (BlockStmt
           [ExprStmt (CallExpr (SelectorExpr (Ident ''r'') ''POST'')
              [BasicLit STRING ''"/login"'', Ident ''login''])]))]\<rparr>\<close>

definition loginTree :: entry where
  "loginTree = DirEntry ''proj'' ''proj'' [FileEntry ''proj/main.go'' (Some loginFile)]"

text \<open>A call is a body idiom when one of the four checks of \<open>DetectJSONBody\<close> accepts it.
  \<open>matchedCalls\<close> lists the calls at which the visitor of \<open>DetectJSONBody\<close> assigns the
  result, in the order of the walk: it is the same walk with a visitor that records the
  call instead.\<close>

definition isBodyIdiom :: "node \<Rightarrow> bool" where
  "isBodyIdiom n =
     (checkGinJSONBinding n \<or> checkJSONDecoder n \<or> checkJSONUnmarshal n \<or> checkIOReadAll n)"

definition matchVisitor :: "node \<Rightarrow> node list \<Rightarrow> bool \<times> node list" where
  "matchVisitor n matched = (if isBodyIdiom n then (False, matched @ [n]) else (True, matched))"

definition matchedCalls :: "node \<Rightarrow> node list" where
  "matchedCalls body = inspect matchVisitor body []"

text \<open>
  \<^verbatim>\<open>func handle() { c.ShouldBindJSON(&userReq); json.Unmarshal(data, &deleteReq) }\<close>
\<close>

definition bindUserReq :: node where
  "bindUserReq =
     CallExpr (SelectorExpr (Ident ''c'') ''ShouldBindJSON'') [UnaryExpr ''&'' (Ident ''userReq'')]"

definition unmarshalDeleteReq :: node where
  "unmarshalDeleteReq =
     CallExpr (SelectorExpr (Ident ''json'') ''Unmarshal'')
       [Ident ''data'', UnaryExpr ''&'' (Ident ''deleteReq'')]"

definition twoIdioms :: node where
  "twoIdioms =
     FuncDecl ''handle'' [] (Some (BlockStmt [ExprStmt bindUserReq, ExprStmt unmarshalDeleteReq]))"

text \<open>The effect of the matches \<open>cs\<close> on the result: the last one stays.\<close>

definition overwrite ::
  "ProjectAnalysis option \<Rightarrow> StructInfo option \<Rightarrow> node list \<Rightarrow> BodyDetectionResult
   \<Rightarrow> BodyDetectionResult" where
  "overwrite g si cs r =
     (case cs of
        [] \<Rightarrow> r
      | c # cs' \<Rightarrow> r\<lparr>HasBody := True, BodyExample := generateSmartBodyExample g (last cs) si\<rparr>)"

text \<open>
  The inline struct type
  \<^verbatim>\<open>struct { Name string `json:"name"`; Age int `json:"age"` }\<close>
\<close>

definition personFields :: "field list" where
  \<open>personFields =
     [Field [''Name''] (Ident ''string'') (Some ''`json:"name"`''),
      Field [''Age''] (Ident ''int'') (Some ''`json:"age"`'')]\<close>

text \<open>The arguments of a call pass the variable \<open>v\<close> and nothing else that the body
  synthesis looks at: \<open>&v\<close> is the only argument, or the second of two when the first is not
  the address of an identifier (as in \<open>json.Unmarshal(data, &v)\<close>).\<close>

definition targetsOnly :: "node list \<Rightarrow> string \<Rightarrow> bool" where
  "targetsOnly args v =
     (case args of
        [arg0] \<Rightarrow> unaryIdent arg0 = Some v
      | [arg0, arg1] \<Rightarrow> unaryIdent arg0 = None \<and> unaryIdent arg1 = Some v
      | _ \<Rightarrow> False)"

text \<open>No struct of the project matches the identifier \<open>v\<close> by the fuzzy test of
  \<open>generateBodyFromProjectAnalysis\<close>.\<close>

definition noStructMatches :: "string \<Rightarrow> ProjectAnalysis option \<Rightarrow> bool" where
  "noStructMatches v g =
     (case g of
        None \<Rightarrow> True
      | Some analysis \<Rightarrow> \<not> list_ex (structMatches v) (map snd (Structs analysis)))"

text \<open>The value of \<open>globalProjectAnalysis\<close> is \<open>nil\<close> or an analysis as \<open>AnalyzeProject\<close>
  leaves it, with the DTO patterns detected from its structs.\<close>

definition analysed :: "ProjectAnalysis option \<Rightarrow> bool" where
  "analysed g =
     (case g of
        None \<Rightarrow> True
      | Some analysis \<Rightarrow> DTOPatterns (ArchPattern analysis) = detectDTOPatterns analysis)"

text \<open>A project with the struct \<open>billing.Invoice\<close>, and the call
  \<open>json.NewDecoder(r.Body).Decode(&req)\<close>.\<close>

definition invoiceProject :: ProjectAnalysis where
  "invoiceProject =
     \<lparr>Structs =
        [(''billing.Invoice'',
          \<lparr>DefName = ''Invoice'',
           DefFields = [\<lparr>FieldName = ''Total'', FieldType = ''int'', JSONTag = ''total'',
                         Required = True\<rparr>],
           DefPackage = ''billing'', DefFile = ''billing/invoice.go''\<rparr>)],
      Packages = [(''billing'', \<lparr>PkgName = ''billing'', PkgImports = [], IsMain = False\<rparr>)],
      ArchPattern = \<lparr>ArchType = ''clean'', Layers = [''billing''], DTOPatterns = [],
                     Confidence = 0\<rparr>\<rparr>"

definition decodeReq :: node where
  "decodeReq =
     CallExpr
       (SelectorExpr
          (CallExpr (SelectorExpr (Ident ''json'') ''NewDecoder'')
             [SelectorExpr (Ident ''r'') ''Body''])
          ''Decode'')
       [UnaryExpr ''&'' (Ident ''req'')]"

text \<open>
  The inline struct types at which the visitor of \<open>scanStructUsage\<close> assigns \<open>structInfo\<close>, in
  the order of the walk: it is the same walk with a visitor that records the field list
  instead.  \<open>lastHint\<close> is what the last of them leaves in \<open>structInfo\<close>.
\<close>

definition hintVisitor :: "node \<Rightarrow> field list list \<Rightarrow> bool \<times> field list list" where
  "hintVisitor n found =
     (case n of
        GenDecl specs \<Rightarrow>
          (case firstStructSpec specs of
             Some flds \<Rightarrow> (False, found @ [flds])
           | None \<Rightarrow> (True, found))
      | AssignStmt lhs rhs \<Rightarrow>
          (case firstStructLit rhs of
             Some flds \<Rightarrow> (False, found @ [flds])
           | None \<Rightarrow> (True, found))
      | _ \<Rightarrow> (True, found))"

definition inlineStructs :: "node \<Rightarrow> field list list" where
  "inlineStructs body = inspect hintVisitor body []"

definition lastHint :: "field list list \<Rightarrow> StructInfo option" where
  "lastHint found =
     (case found of
        [] \<Rightarrow> None
      | flds # rest \<Rightarrow> Some (analyzeInlineStruct (last found) ''InlineStruct''))"

text \<open>
  Three function bodies that declare \<open>req\<close> with the inline struct type above and decode
  into it:
  \<^verbatim>\<open>var req struct{...}; json.NewDecoder(r.Body).Decode(&req)\<close>
  \<^verbatim>\<open>req := struct{...}{}; if err := json.NewDecoder(r.Body).Decode(&req); err != nil { return }\<close>
  \<^verbatim>\<open>var req struct{...}; json.NewDecoder(r.Body).Decode(&req); resp := struct{ OK bool }{true}\<close>
  An \<open>if\<close> statement is an \<open>OtherNode\<close> with its initialisation, its condition and its block.
\<close>

definition okFields :: "field list" where
  "okFields = [Field [''OK''] (Ident ''bool'') None]"

definition varDeclBody :: node where
  "varDeclBody =
     BlockStmt
       [DeclStmt (GenDecl [ValueSpec [''req''] (Some (StructType personFields)) []]),
        ExprStmt decodeReq]"

definition shortDeclBody :: node where
  "shortDeclBody =
     BlockStmt
       [AssignStmt [Ident ''req''] [CompositeLit (Some (StructType personFields)) []],
        OtherNode
          [AssignStmt [Ident ''err''] [decodeReq],
           OtherNode [Ident ''err'', Ident ''nil''],
           BlockStmt [OtherNode []]]]"

definition decodeThenStruct :: node where
  "decodeThenStruct =
     BlockStmt
       [DeclStmt (GenDecl [ValueSpec [''req''] (Some (StructType personFields)) []]),
        ExprStmt decodeReq,
        AssignStmt [Ident ''resp'']
          [CompositeLit (Some (StructType okFields)) [Ident ''true'']]]"

text \<open>
  The comment group of the specification's example, and a group that declares two routes:
  \<^verbatim>\<open>@route POST /api/users Create user\<close>
  \<^verbatim>\<open>@header Content-Type: application/json\<close>
  \<^verbatim>\<open>@body {"a":1}\<close>
  \<^verbatim>\<open>@tag users\<close>
\<close>

definition exampleGroup :: string where
  \<open>exampleGroup =
     ''@route POST /api/users Create user'' @ [CHR 0x0A] @
     ''@header Content-Type: application/json'' @ [CHR 0x0A] @
     ''@body {"a":1}'' @ [CHR 0x0A] @
     ''@tag users''\<close>

definition sharedGroup :: string where
  \<open>sharedGroup =
     ''@header X-Id: 7'' @ [CHR 0x0A] @
     ''@body {"n":1}'' @ [CHR 0x0A] @
     ''@tag users'' @ [CHR 0x0A] @
     ''@route POST /v1/users'' @ [CHR 0x0A] @
     ''@route GET /v1/users''\<close>

text \<open>
  The last loop of the annotation parser once more, with the store made explicit.  For every
  route the loop allocates a new map and copies the accumulated headers into it, entry by
  entry, and appends the accumulated tags to a \<open>nil\<close> slice, which allocates a new array
  unless there are no tags.  A store is the list of the objects allocated so far, an address
  a position in it; \<open>copyPerRoute\<close> returns, for every route, the addresses its endpoint
  holds for \<open>Headers\<close> and \<open>Tags\<close> (no address for a \<open>nil\<close> slice).
\<close>

datatype object = MapObject "(string \<times> string) list" | ArrayObject "string list"

type_synonym store = "object list"

record endpoint_refs =
  HeadersAt :: nat
  TagsAt :: "nat option"

definition copyMap :: "(string \<times> string) list \<Rightarrow> (string \<times> string) list" where
  "copyMap m = fold (\<lambda>(k, v) hcopy. AList.update k v hcopy) m []"

fun copyPerRoute :: "route list \<Rightarrow> accumulated \<Rightarrow> store \<Rightarrow> endpoint_refs list \<times> store" where
  "copyPerRoute [] acc h = ([], h)"
| "copyPerRoute (r # routes) acc h =
     (let hcopy = length h;
          h1 = h @ [MapObject (copyMap (accHeaders acc))];
          (tcopy, h2) = (if accTags acc = [] then (None, h1)
                         else (Some (length h1), h1 @ [ArrayObject (accTags acc)]));
          (refs, h3) = copyPerRoute routes acc h2
      in (\<lparr>HeadersAt = hcopy, TagsAt = tcopy\<rparr> # refs, h3))"

definition addresses :: "endpoint_refs \<Rightarrow> nat list" where
  "addresses \<rho> = HeadersAt \<rho> # (case TagsAt \<rho> of None \<Rightarrow> [] | Some a \<Rightarrow> [a])"

definition headersOf :: "store \<Rightarrow> endpoint_refs \<Rightarrow> (string \<times> string) list option" where
  "headersOf h \<rho> =
     (if HeadersAt \<rho> < length h
      then (case h ! HeadersAt \<rho> of MapObject m \<Rightarrow> Some m | ArrayObject xs \<Rightarrow> None)
      else None)"

definition tagsOf :: "store \<Rightarrow> endpoint_refs \<Rightarrow> string list option" where
  "tagsOf h \<rho> =
     (case TagsAt \<rho> of
        None \<Rightarrow> Some []
      | Some a \<Rightarrow>
          (if a < length h
           then (case h ! a of ArrayObject xs \<Rightarrow> Some xs | MapObject m \<Rightarrow> None)
           else None))"

section \<open>Notions used in the statements about ScanDir\<close>

text \<open>The methods an endpoint of the result can have, and the shape of its path.\<close>

definition methodOK :: "string \<Rightarrow> bool" where
  "methodOK m = (m = ''ANY'' \<or> m \<in> set verbSet)"

definition wellFormed :: "Endpoint \<Rightarrow> bool" where
  "wellFormed e = (HasPrefix (Path e) ''/'' \<and> methodOK (Method e))"

definition allWellFormed :: "scan_state \<Rightarrow> bool" where
  "allWellFormed st = (\<forall>e \<in> set (endpoints st). wellFormed e)"

text \<open>
  The file \<open>proj/main.go\<close> with the comment \<^verbatim>\<open>// @route get users\<close> and
  \<^verbatim>\<open>func main() { r.Delete("/v1/orders/{id}", remove); mux.HandleFunc("/health", health) }\<close>
\<close>

definition mixedFile :: ast_file where
  \<open>mixedFile =
     \<lparr>PackageName = ''main'', Imports = [], Comments = [''@route get users'' @ [CHR 0x0A]],
      Decls =
        [FuncDecl ''main'' [] (Some (BlockStmt
           [ExprStmt (CallExpr (SelectorExpr (Ident ''r'') ''Delete'')
              [BasicLit STRING ''"/v1/orders/{id}"'', Ident ''remove'']),
            ExprStmt (CallExpr (SelectorExpr (Ident ''mux'') ''HandleFunc'')
              [BasicLit STRING ''"/health"'', Ident ''health''])]))]\<rparr>\<close>

definition mixedTree :: entry where
  "mixedTree = DirEntry ''proj'' ''proj'' [FileEntry ''proj/main.go'' (Some mixedFile)]"

text \<open>
  The endpoint that \<open>add\<close> appends for \<open>e0\<close> when its key has not been seen: the method \<open>ANY\<close>
  when there is none, the path with a leading slash, the type \<open>REST\<close> when there is none, and
  the method in upper case.  \<open>keysSeen\<close> is the invariant of \<open>add\<close>: the set \<open>seen\<close> holds the
  keys of the endpoints appended so far, and no two of them have the same key.
\<close>

definition addedEndpoint :: "Endpoint \<Rightarrow> Endpoint" where
  "addedEndpoint e0 =
     (let e1 = (if Method e0 = '''' then e0\<lparr>Method := ''ANY''\<rparr> else e0);
          e2 = (if \<not> HasPrefix (Path e1) ''/'' then e1\<lparr>Path := ''/'' @ Path e1\<rparr> else e1);
          e3 = (if Type e2 = '''' then e2\<lparr>Type := ''REST''\<rparr> else e2)
      in e3\<lparr>Method := ToUpper (Method e3)\<rparr>)"

definition keysSeen :: "scan_state \<Rightarrow> bool" where
  "keysSeen st =
     (seen st = endpointKey ` set (endpoints st) \<and> distinct (map endpointKey (endpoints st)))"

text \<open>Two endpoints, and two states of a scan, that differ in the bodies at most.\<close>

definition withoutBody :: "Endpoint \<Rightarrow> Endpoint" where
  "withoutBody e = e\<lparr>BodyRaw := ''''\<rparr>"

definition sameButBodies :: "scan_state \<Rightarrow> scan_state \<Rightarrow> bool" where
  "sameButBodies st1 st2 =
     (seen st1 = seen st2
      \<and> map withoutBody (endpoints st1) = map withoutBody (endpoints st2))"

text \<open>
  The file \<open>proj/main.go\<close> with
  \<^verbatim>\<open>type CreateReq struct { Name string }\<close>
  \<^verbatim>\<open>type DeleteReq struct { ID int }\<close>
  \<^verbatim>\<open>func handle() { json.NewDecoder(r.Body).Decode(&req) }\<close>
  \<^verbatim>\<open>func main() { r.POST("/items", handle) }\<close>
  Both structs match the variable \<open>req\<close>.
\<close>

definition itemsFile :: ast_file where
  \<open>itemsFile =
     \<lparr>PackageName = ''main'', Imports = [], Comments = [],
      Decls =
        [GenDecl [TypeSpec ''CreateReq'' (StructType [Field [''Name''] (Ident ''string'') None])],
         GenDecl [TypeSpec ''DeleteReq'' (StructType [Field [''ID''] (Ident ''int'') None])],
         FuncDecl ''handle'' [] (Some (BlockStmt [ExprStmt decodeReq])),
         FuncDecl ''main'' [] (Some (BlockStmt
           [ExprStmt (CallExpr (SelectorExpr (Ident ''r'') ''POST'')
              [BasicLit STRING ''"/items"'', Ident ''handle''])]))]\<rparr>\<close>

definition itemsTree :: entry where
  "itemsTree = DirEntry ''proj'' ''proj'' [FileEntry ''proj/main.go'' (Some itemsFile)]"

text \<open>An endpoint, and a second one with the same key: the method in lower case, the path
  without its slash, another handler and a body.\<close>

definition listUsers :: Endpoint where
  "listUsers = restEndpoint ''GET'' ''/v1/users'' ''a.go'' ''list'' ''''"

definition listUsersAgain :: Endpoint where
  "listUsersAgain = restEndpoint ''get'' ''v1/users'' ''a.go'' ''other'' ''{}''"










section \<open>The variable-name table\<close>






section \<open>The architecture pattern of a project that matches no keyword\<close>

text \<open>
  Claim C7.  When the four scores are 0, \<open>detectArchitecturePattern\<close> returns the type
  \<open>clean\<close> with confidence 0, not \<open>unknown\<close>: the clean-architecture score is taken as the
  first maximum without a test, which overwrites the initial type.
\<close>

theorem all_scores_zero_gives_clean:
  assumes "detectCleanArchitecture
             (filter (\<lambda>name. name \<noteq> ''main'') (map fst (Packages analysis))) = 0"
    and "detectMVC (filter (\<lambda>name. name \<noteq> ''main'') (map fst (Packages analysis))) = 0"
    and "detectLayeredArchitecture
           (filter (\<lambda>name. name \<noteq> ''main'') (map fst (Packages analysis))) = 0"
    and "detectMicroservicePattern analysis = 0"
  shows "ArchType (detectArchitecturePattern analysis) = ''clean''
       \<and> Confidence (detectArchitecturePattern analysis) = 0"
  using assms by (simp add: detectArchitecturePattern_def Let_def)

lemma plainProject_clean_score: "detectCleanArchitecture [''store''] = 0"
  by (simp add: detectCleanArchitecture_def keywordHits_def cleanPatterns_def ToLower_def
        toLowerChar_def upper_letters_def lower_letters_def HasPrefix_def)

lemma plainProject_mvc_score: "detectMVC [''store''] = 0"
  by (simp add: detectMVC_def keywordHits_def ToLower_def toLowerChar_def upper_letters_def
        lower_letters_def HasPrefix_def)

lemma plainProject_layered_score: "detectLayeredArchitecture [''store''] = 0"
  by (simp add: detectLayeredArchitecture_def keywordHits_def layerPatterns_def ToLower_def
        toLowerChar_def upper_letters_def lower_letters_def HasPrefix_def)

lemma plainProject_microservice_score: "detectMicroservicePattern plainProject = 0"
  by (simp add: detectMicroservicePattern_def plainProject_def ToLower_def toLowerChar_def
        upper_letters_def lower_letters_def HasPrefix_def)

theorem all_scores_zero_gives_clean_witness:
  "detectCleanArchitecture [''store''] = 0 \<and> detectMVC [''store''] = 0
   \<and> detectLayeredArchitecture [''store''] = 0 \<and> detectMicroservicePattern plainProject = 0
   \<and> ArchType (detectArchitecturePattern plainProject) = ''clean''
   \<and> ArchType (detectArchitecturePattern plainProject) \<noteq> ''unknown''
   \<and> Confidence (detectArchitecturePattern plainProject) = 0"
proof -
  have names: "filter (\<lambda>name. name \<noteq> ''main'') (map fst (Packages plainProject)) = [''store'']"
    by (simp add: plainProject_def)
  have "ArchType (detectArchitecturePattern plainProject) = ''clean''
       \<and> Confidence (detectArchitecturePattern plainProject) = 0"
    by (rule all_scores_zero_gives_clean)
       (simp_all add: names plainProject_clean_score plainProject_mvc_score
          plainProject_layered_score plainProject_microservice_score)
  then show ?thesis
    by (simp add: plainProject_clean_score plainProject_mvc_score plainProject_layered_score
          plainProject_microservice_score)
qed

section \<open>A chain of HandleFunc and Methods\<close>

text \<open>
  Claim C1.  For \<open>x.HandleFunc("/v1/users", handler).Methods("GET","POST")\<close> the scan returns
  three endpoints: GET and POST from the outer call, and then ANY from the inner call
  \<open>x.HandleFunc("/v1/users", handler)\<close>, which \<open>Inspect\<close> visits next and for which
  \<open>findChainedMethods\<close> finds no methods, since it looks at the call itself and at its
  receiver, not at the call around it.
\<close>

theorem methods_chain_also_emits_any:
  "map (\<lambda>e. (Method e, Path e, Handler e)) (fst (fst (ScanDir simpleUnquote id None chainTree)))
     = [(''GET'', ''/v1/users'', ''handler''), (''POST'', ''/v1/users'', ''handler''),
        (''ANY'', ''/v1/users'', ''handler'')]"
  by code_simp

section \<open>Fields tagged as excluded\<close>

text \<open>
  Claim C6.  A field tagged \<open>json:"-"\<close> of a project struct is rendered: \<open>extractJSONTag\<close> gives
  the empty string for it, \<open>analyzeStructField\<close> then stores the lower-cased field name as
  the key, and the test for the key \<open>-\<close> in \<open>generateJSONFromProjectStruct\<close> never holds.
  Here the body attached to \<open>POST /login\<close> contains the field \<open>Password\<close>.
\<close>

theorem excluded_field_is_rendered:
  \<open>map (\<lambda>e. (Method e, Path e, BodyRaw e)) (fst (fst (ScanDir simpleUnquote id None loginTree)))
     = [(''POST'', ''/login'', ''{"name":"string","password":"string"}'')]\<close>
  by code_simp

section \<open>Which matching call gives the body\<close>

declare inspect.simps [simp del]

lemma fold_inspect_append:
  assumes "\<And>x acc. x \<in> set xs \<Longrightarrow> F x acc = acc @ F x []"
  shows "fold F xs acc = acc @ fold F xs []"
  using assms
proof (induction xs arbitrary: acc)
  case Nil
  then show ?case by simp
next
  case (Cons x xs)
  have a: "fold F xs (F x acc) = F x acc @ fold F xs []"
    by (rule Cons.IH, rule Cons.prems, simp)
  have b: "F x acc = acc @ F x []"
    by (rule Cons.prems) simp
  have c: "fold F xs (F x []) = F x [] @ fold F xs []"
    by (rule Cons.IH, rule Cons.prems, simp)
  have "fold F (x # xs) acc = F x acc @ fold F xs []"
    using a by simp
  also have "\<dots> = acc @ (F x [] @ fold F xs [])"
    using b by simp
  also have "\<dots> = acc @ fold F (x # xs) []"
    using c by simp
  finally show ?case .
qed

lemma matched_append: "inspect matchVisitor n acc = acc @ inspect matchVisitor n []"
proof (induction matchVisitor n acc rule: inspect.induct)
  case (1 n s)
  show ?case
  proof (cases "isBodyIdiom n")
    case True
    then show ?thesis by (simp add: inspect.simps [of matchVisitor n] matchVisitor_def)
  next
    case False
    then have v: "matchVisitor n t = (True, t)" for t by (simp add: matchVisitor_def)
    have "fold (inspect matchVisitor) (children n) s
            = s @ fold (inspect matchVisitor) (children n) []"
      by (rule fold_inspect_append) (use 1 [OF v [symmetric]] in blast)
    then show ?thesis by (simp add: inspect.simps [of matchVisitor n] v)
  qed
qed

lemma overwrite_append: "overwrite g si (xs @ ys) r = overwrite g si ys (overwrite g si xs r)"
  by (cases xs; cases ys) (auto simp: overwrite_def)

lemma detectVisitor_idiom:
  "isBodyIdiom n \<Longrightarrow>
   detectVisitor g si n r =
     (False, r\<lparr>HasBody := True, BodyExample := generateSmartBodyExample g n si\<rparr>)"
  by (cases n) (auto simp: detectVisitor_def isBodyIdiom_def)

lemma detectVisitor_other: "\<not> isBodyIdiom n \<Longrightarrow> detectVisitor g si n r = (True, r)"
  by (cases n) (auto simp: detectVisitor_def isBodyIdiom_def)

lemma fold_detect:
  assumes "\<And>x r. x \<in> set xs \<Longrightarrow>
             inspect (detectVisitor g si) x r = overwrite g si (inspect matchVisitor x []) r"
  shows "fold (inspect (detectVisitor g si)) xs r
           = overwrite g si (fold (inspect matchVisitor) xs []) r"
  using assms
proof (induction xs arbitrary: r rule: rev_induct)
  case Nil
  then show ?case by (simp add: overwrite_def)
next
  case (snoc x xs)
  have "fold (inspect matchVisitor) (xs @ [x]) [] =
        fold (inspect matchVisitor) xs [] @ inspect matchVisitor x []"
    using matched_append [of x "fold (inspect matchVisitor) xs []"] by simp
  then show ?case using snoc by (simp add: overwrite_append)
qed

lemma inspect_detect:
  "inspect (detectVisitor g si) n r = overwrite g si (inspect matchVisitor n []) r"
proof (induction "detectVisitor g si" n r rule: inspect.induct)
  case (1 n s)
  show ?case
  proof (cases "isBodyIdiom n")
    case True
    then show ?thesis
      by (simp add: inspect.simps [of _ n] matchVisitor_def detectVisitor_idiom overwrite_def)
  next
    case False
    have "fold (inspect (detectVisitor g si)) (children n) s
          = overwrite g si (fold (inspect matchVisitor) (children n) []) s"
      by (rule fold_detect) (use 1 [OF detectVisitor_other [OF False, symmetric]] in blast)
    then show ?thesis
      using False by (simp add: inspect.simps [of _ n] matchVisitor_def detectVisitor_other)
  qed
qed

text \<open>
  Claim C3, as the code has it.  \<open>DetectJSONBody\<close> does not stop at the first matching call:
  at a match the visitor only keeps \<open>Inspect\<close> from entering that call, the walk goes on, and
  every later matching call assigns the result again.  The body returned is the one
  synthesized from the last matching call the walk visits (\<open>matchedCalls\<close> lists them in
  order); there is no body when the walk visits none.
\<close>

theorem last_match_gives_body:
  "DetectJSONBody g (FuncDecl name sig (Some body)) =
     (case matchedCalls body of
        [] \<Rightarrow> \<lparr>HasBody = False, BodyExample = '''', StructName = ''''\<rparr>
      | c # cs \<Rightarrow>
          \<lparr>HasBody = True,
           BodyExample = generateSmartBodyExample g (last (c # cs)) (scanStructUsage body),
           StructName = ''''\<rparr>)"
  by (simp add: inspect_detect matchedCalls_def overwrite_def split: list.splits)

text \<open>
  Claim C3, as stated, fails for \<open>twoIdioms\<close>: both calls match, in this order, the body
  synthesized from the first is the user shape, and the body returned is the deletion shape
  of the second.
\<close>

theorem first_match_counterexample:
  \<open>matchedCalls (BlockStmt [ExprStmt bindUserReq, ExprStmt unmarshalDeleteReq])
     = [bindUserReq, unmarshalDeleteReq]
   \<and> generateSmartBodyExample None bindUserReq None
       = ''{"name":"string","email":"string","id":"string"}''
   \<and> BodyExample (DetectJSONBody None twoIdioms) = ''{"id":"string","reason":"string"}''
   \<and> BodyExample (DetectJSONBody None twoIdioms)
       \<noteq> generateSmartBodyExample None bindUserReq None\<close>
  by code_simp

section \<open>Walks that keep an invariant or a relation\<close>

lemma fold_preserves:
  assumes "\<And>x s. x \<in> set xs \<Longrightarrow> P s \<Longrightarrow> P (F x s)" and "P s"
  shows "P (fold F xs s)"
  using assms by (induction xs arbitrary: s) auto

lemma inspect_preserves:
  "(\<And>n s. P s \<Longrightarrow> P (snd (f n s))) \<Longrightarrow> P s \<Longrightarrow> P (inspect f n s)"
proof (induction f n s rule: inspect.induct)
  case (1 f n s)
  obtain b s' where v: "f n s = (b, s')" by (cases "f n s")
  have s': "P s'" using "1.prems"(1) [OF "1.prems"(2), of n] v by simp
  show ?case
  proof (cases b)
    case True
    have "P (fold (inspect f) (children n) s')"
    proof (rule fold_preserves)
      show "P s'" by (rule s')
    next
      fix x t assume "x \<in> set (children n)" "P t"
      moreover have "b = True" using True by simp
      ultimately show "P (inspect f x t)"
        using "1.IH" [OF v [symmetric], of x t] "1.prems"(1) by blast
    qed
    then show ?thesis using v True by (simp add: inspect.simps [of f n s])
  next
    case False
    then show ?thesis using v s' by (simp add: inspect.simps [of f n s])
  qed
qed

lemma walk_preserves:
  "(\<And>p parsed s. P s \<Longrightarrow> P (fst (onFile p parsed s))) \<Longrightarrow> P s \<Longrightarrow>
     P (fst (walkDir skip onFile e s))"
  "(\<And>p parsed s. P s \<Longrightarrow> P (fst (onFile p parsed s))) \<Longrightarrow> P s \<Longrightarrow>
     P (fst (walkEntries skip onFile es s))"
proof (induction skip onFile e s and skip onFile es s rule: walkDir_walkEntries.induct)
  case (1 skip onFile path parsed s)
  then show ?case by simp
next
  case (2 skip onFile path name es s)
  then show ?case by simp
next
  case (3 skip onFile s)
  then show ?case by simp
next
  case (4 skip onFile e es s)
  obtain s' err where w: "walkDir skip onFile e s = (s', err)"
    by (cases "walkDir skip onFile e s")
  have s': "P s'" using "4.IH"(1) [OF "4.prems"] w by simp
  show ?case
  proof (cases err)
    case None
    then show ?thesis using "4.IH"(2) [OF w [symmetric] None "4.prems"(1) s'] w by simp
  next
    case (Some a)
    then show ?thesis using w s' by simp
  qed
qed

lemma fold_rel:
  assumes "\<And>x s1 s2. x \<in> set xs \<Longrightarrow> R s1 s2 \<Longrightarrow> R (F1 x s1) (F2 x s2)" and "R s1 s2"
  shows "R (fold F1 xs s1) (fold F2 xs s2)"
  using assms by (induction xs arbitrary: s1 s2) auto

lemma inspect_rel:
  "(\<And>n s1 s2. R s1 s2 \<Longrightarrow>
      fst (f1 n s1) = fst (f2 n s2) \<and> R (snd (f1 n s1)) (snd (f2 n s2))) \<Longrightarrow>
   R s1 s2 \<Longrightarrow> R (inspect f1 n s1) (inspect f2 n s2)"
proof (induction f1 n s1 arbitrary: s2 rule: inspect.induct)
  case (1 f1 n s1)
  obtain b t1 where v1: "f1 n s1 = (b, t1)" by (cases "f1 n s1")
  obtain b' t2 where v2: "f2 n s2 = (b', t2)" by (cases "f2 n s2")
  have same: "b' = b" and t: "R t1 t2"
    using "1.prems"(1) [OF "1.prems"(2), of n] v1 v2 by simp_all
  show ?case
  proof (cases b)
    case True
    have "R (fold (inspect f1) (children n) t1) (fold (inspect f2) (children n) t2)"
    proof (rule fold_rel [where R = R, OF _ t])
      fix x u1 u2 assume "x \<in> set (children n)" "R u1 u2"
      moreover have "b = True" using True by simp
      ultimately show "R (inspect f1 x u1) (inspect f2 x u2)"
        using "1.IH" [OF v1 [symmetric], of x u1 u2] "1.prems"(1) by blast
    qed
    then show ?thesis
      using v1 v2 same True by (simp add: inspect.simps [of f1 n] inspect.simps [of f2 n])
  next
    case False
    then show ?thesis
      using v1 v2 same t by (simp add: inspect.simps [of f1 n] inspect.simps [of f2 n])
  qed
qed

lemma walk_rel:
  "(\<And>p parsed s1 s2. R s1 s2 \<Longrightarrow>
      R (fst (on1 p parsed s1)) (fst (on2 p parsed s2))
      \<and> snd (on1 p parsed s1) = snd (on2 p parsed s2)) \<Longrightarrow>
   R s1 s2 \<Longrightarrow>
   R (fst (walkDir skip on1 e s1)) (fst (walkDir skip on2 e s2))
   \<and> snd (walkDir skip on1 e s1) = snd (walkDir skip on2 e s2)"
  "(\<And>p parsed s1 s2. R s1 s2 \<Longrightarrow>
      R (fst (on1 p parsed s1)) (fst (on2 p parsed s2))
      \<and> snd (on1 p parsed s1) = snd (on2 p parsed s2)) \<Longrightarrow>
   R s1 s2 \<Longrightarrow>
   R (fst (walkEntries skip on1 es s1)) (fst (walkEntries skip on2 es s2))
   \<and> snd (walkEntries skip on1 es s1) = snd (walkEntries skip on2 es s2)"
proof (induction skip on1 e s1 and skip on1 es s1 arbitrary: s2 and s2
       rule: walkDir_walkEntries.induct)
  case (1 skip on1 path parsed s)
  then show ?case by simp
next
  case (2 skip on1 path name es s)
  then show ?case by simp
next
  case (3 skip on1 s)
  then show ?case by simp
next
  case (4 skip on1 e es s)
  obtain t1 err1 where w1: "walkDir skip on1 e s = (t1, err1)"
    by (cases "walkDir skip on1 e s")
  obtain t2 err2 where w2: "walkDir skip on2 e s2 = (t2, err2)"
    by (cases "walkDir skip on2 e s2")
  have h: "R t1 t2" "err2 = err1"
    using "4.IH"(1) [OF "4.prems"] w1 w2 by simp_all
  show ?case
  proof (cases err1)
    case None
    then show ?thesis
      using "4.IH"(2) [OF w1 [symmetric] None "4.prems"(1) h(1)] w1 w2 h by simp
  next
    case (Some a)
    then show ?thesis using w1 w2 h by simp
  qed
qed

section \<open>A local inline struct\<close>

lemma scanStructUsage_last: "scanStructUsage body = lastHint (inlineStructs body)"
proof -
  define R where "R = (\<lambda>(si :: StructInfo option) found. si = lastHint found)"
  have step: "fst (structUsageVisitor n si) = fst (hintVisitor n found)
      \<and> R (snd (structUsageVisitor n si)) (snd (hintVisitor n found))"
    if "R si found" for n si found
    using that
    by (cases n) (auto simp: R_def hintVisitor_def lastHint_def split: option.splits list.splits)
  have "R (inspect structUsageVisitor body None) (inspect hintVisitor body [])"
    by (rule inspect_rel [where R = R]) (use step in \<open>auto simp: R_def lastHint_def\<close>)
  then show ?thesis
    by (simp add: R_def scanStructUsage_def inlineStructs_def)
qed

lemma lastHint_snoc: "lastHint (hs @ [flds]) = Some (analyzeInlineStruct flds ''InlineStruct'')"
  by (cases hs) (simp_all add: lastHint_def)

lemma fields_nonempty: "flds \<noteq> [] \<Longrightarrow> InfoFields (analyzeInlineStruct flds nm) \<noteq> []"
  by (simp add: analyzeInlineStruct_def)

lemma dtoLoop_no_hit:
  assumes "\<And>p. p \<in> set ps \<Longrightarrow> \<not> Contains (ToLower p) (ToLower v)"
  shows "dtoLoop ps v analysis = ''''"
  using assms by (induction ps) auto

lemma detectDTOPatterns_names:
  "p \<in> set (detectDTOPatterns analysis) \<Longrightarrow>
   \<exists>k sd. (k, sd) \<in> set (Structs analysis) \<and> DefName sd = p"
  by (auto simp: detectDTOPatterns_def)

lemma overwrite_snoc:
  "overwrite g si (cs @ [c]) r
     = r\<lparr>HasBody := True, BodyExample := generateSmartBodyExample g c si\<rparr>"
  by (cases cs) (simp_all add: overwrite_def)

lemma project_body_no_match:
  assumes "\<not> list_ex (structMatches v) (map snd (Structs analysis))"
    and "DTOPatterns (ArchPattern analysis) = detectDTOPatterns analysis"
    and "targetsOnly (callArgs call) v"
  shows "generateBodyFromProjectAnalysis call analysis = ''''"
proof -
  have nofind: "find (structMatches v) (map snd (Structs analysis)) = None"
    using assms(1) by (simp add: find_None_iff list_ex_iff)
  have "\<not> Contains (ToLower p) (ToLower v)" if pin: "p \<in> set (DTOPatterns (ArchPattern analysis))" for p
  proof
    assume c: "Contains (ToLower p) (ToLower v)"
    obtain k sd where "(k, sd) \<in> set (Structs analysis)" "DefName sd = p"
      using pin assms(2) detectDTOPatterns_names [of p analysis] by auto
    then have "sd \<in> set (map snd (Structs analysis))" "structMatches v sd"
      using c by (force, simp add: structMatches_def Let_def)
    then have "list_ex (structMatches v) (map snd (Structs analysis))"
      unfolding list_ex_iff by blast
    then show False using assms(1) by simp
  qed
  then have dto: "dtoLoop (DTOPatterns (ArchPattern analysis)) v analysis = ''''"
    by (rule dtoLoop_no_hit)
  show ?thesis
    using assms(3) nofind dto
    by (auto simp: generateBodyFromProjectAnalysis_def targetsOnly_def split: list.splits)
qed

lemma person_json:
  \<open>generateJSONFromStruct (analyzeInlineStruct personFields ''InlineStruct'')
     = ''{"name":"string","age":0}''\<close>
  by code_simp

text \<open>
  Claim C4, as the code has it.  \<open>scanStructUsage\<close> does not look at the variable that is
  decoded into: it walks the whole function body and keeps the inline struct type of the
  last declaration or assignment at which it finds one (\<open>inlineStructs\<close> lists them in
  order), be it declared with \<open>var\<close> or as the literal of a \<open>:=\<close>.  For every function body in
  which the walk of \<open>DetectJSONBody\<close> visits a matching call, whose last matching call passes
  \<open>&v\<close>, and for every project analysis in which no struct matches \<open>v\<close>: when the last inline
  struct type of the body has the fields \<open>flds\<close>, at least one, the detected body is the
  rendering of \<open>flds\<close>, in the order of their declaration.  It is exactly
  \<open>{"name":"string","age":0}\<close> when that last type is
  \<open>struct { Name string `json:"name"`; Age int `json:"age"` }\<close>.
\<close>

theorem last_inline_struct_gives_body:
  assumes "matchedCalls body = cs @ [call]"
    and "targetsOnly (callArgs call) v" and "noStructMatches v g" and "analysed g"
    and "inlineStructs body = hs @ [flds]" and "flds \<noteq> []"
  shows \<open>scanStructUsage body = Some (analyzeInlineStruct flds ''InlineStruct'')
         \<and> DetectJSONBody g (FuncDecl name sig (Some body))
           = \<lparr>HasBody = True,
              BodyExample = generateJSONFromStruct (analyzeInlineStruct flds ''InlineStruct''),
              StructName = ''''\<rparr>
         \<and> (flds = personFields \<longrightarrow>
              DetectJSONBody g (FuncDecl name sig (Some body))
                = \<lparr>HasBody = True, BodyExample = ''{"name":"string","age":0}'',
                   StructName = ''''\<rparr>)\<close>
proof -
  let ?si = "Some (analyzeInlineStruct flds ''InlineStruct'')"
  have si: "scanStructUsage body = ?si"
    using assms(5) by (simp add: scanStructUsage_last lastHint_snoc)
  have mc: "inspect matchVisitor body [] = cs @ [call]"
    using assms(1) by (simp add: matchedCalls_def)
  have proj: "(case g of Some analysis \<Rightarrow> generateBodyFromProjectAnalysis call analysis
               | None \<Rightarrow> '''') = ''''"
    using assms(2,3,4)
    by (auto simp: noStructMatches_def analysed_def project_body_no_match split: option.splits)
  have gen: "generateSmartBodyExample g call ?si
               = generateJSONFromStruct (analyzeInlineStruct flds ''InlineStruct'')"
    using proj fields_nonempty [OF assms(6)] by (simp add: generateSmartBodyExample_def)
  have d: "DetectJSONBody g (FuncDecl name sig (Some body))
           = \<lparr>HasBody = True,
              BodyExample = generateJSONFromStruct (analyzeInlineStruct flds ''InlineStruct''),
              StructName = ''''\<rparr>"
    using gen by (simp add: si inspect_detect mc overwrite_snoc)
  show ?thesis
    using si d person_json by (simp del: DetectJSONBody.simps)
qed

text \<open>The two bodies that declare \<open>req\<close> with \<open>var\<close> and with \<open>:=\<close> (decoding inside an \<open>if\<close>),
  under a project whose only struct does not match \<open>req\<close>.\<close>

theorem last_inline_struct_gives_body_witness:
  \<open>matchedCalls varDeclBody = [] @ [decodeReq]
   \<and> matchedCalls shortDeclBody = [] @ [decodeReq]
   \<and> targetsOnly (callArgs decodeReq) ''req''
   \<and> noStructMatches ''req'' (Some invoiceProject) \<and> analysed (Some invoiceProject)
   \<and> inlineStructs varDeclBody = [] @ [personFields]
   \<and> inlineStructs shortDeclBody = [] @ [personFields]
   \<and> personFields \<noteq> []
   \<and> DetectJSONBody (Some invoiceProject) (FuncDecl ''create'' [] (Some varDeclBody))
      = \<lparr>HasBody = True, BodyExample = ''{"name":"string","age":0}'', StructName = ''''\<rparr>
   \<and> DetectJSONBody (Some invoiceProject) (FuncDecl ''create'' [] (Some shortDeclBody))
      = \<lparr>HasBody = True, BodyExample = ''{"name":"string","age":0}'', StructName = ''''\<rparr>\<close>
proof -
  have m1: "matchedCalls varDeclBody = [] @ [decodeReq]" by code_simp
  have m2: "matchedCalls shortDeclBody = [] @ [decodeReq]" by code_simp
  have h2: "targetsOnly (callArgs decodeReq) ''req''" by code_simp
  have h3: "noStructMatches ''req'' (Some invoiceProject)" by code_simp
  have h4: "analysed (Some invoiceProject)" by code_simp
  have i1: "inlineStructs varDeclBody = [] @ [personFields]" by code_simp
  have i2: "inlineStructs shortDeclBody = [] @ [personFields]" by code_simp
  have ne: "personFields \<noteq> []" by (simp add: personFields_def)
  note t1 = last_inline_struct_gives_body [OF m1 h2 h3 h4 i1 ne, of "''create''" "[]",
      THEN conjunct2, THEN conjunct2, THEN mp, OF refl]
  note t2 = last_inline_struct_gives_body [OF m2 h2 h3 h4 i2 ne, of "''create''" "[]",
      THEN conjunct2, THEN conjunct2, THEN mp, OF refl]
  from m1 m2 h2 h3 h4 i1 i2 ne t1 t2 show ?thesis
    by blast
qed

text \<open>
  Claim C4, as stated, fails for the third body: the function declares \<open>req\<close> with the
  inline struct type and decodes into it, the only matching call passes \<open>&req\<close>, no project
  analysis is there, and the detected body is the rendering of the struct literal that
  follows, \<open>{"ok":false}\<close>.
\<close>

theorem later_inline_struct_counterexample:
  \<open>matchedCalls decodeThenStruct = [decodeReq]
   \<and> targetsOnly (callArgs decodeReq) ''req''
   \<and> inlineStructs decodeThenStruct = [personFields, okFields]
   \<and> DetectJSONBody None (FuncDecl ''create'' [] (Some decodeThenStruct))
       = \<lparr>HasBody = True, BodyExample = ''{"ok":false}'', StructName = ''''\<rparr>
   \<and> BodyExample (DetectJSONBody None (FuncDecl ''create'' [] (Some decodeThenStruct)))
       \<noteq> ''{"name":"string","age":0}''\<close>
  by code_simp


lemma analyzeProject_analysed: "AnalyzeProject rangeOrder rootDir = Inr a \<Longrightarrow> analysed (Some a)"
  by (auto simp: AnalyzeProject_def analysed_def detectArchitecturePattern_def Let_def
        detectDTOPatterns_def split: prod.splits option.splits if_splits)

section \<open>Annotations of a comment group\<close>

lemma buildEndpoints_shared:
  "e \<in> set (buildEndpoints routes acc src) \<Longrightarrow>
   Headers e = accHeaders acc \<and> BodyRaw e = accBody acc \<and> Tags e = accTags acc"
proof (induction routes arbitrary: acc)
  case Nil
  then show ?case by simp
next
  case (Cons r routes)
  obtain acc' where step:
    "e = hd (buildEndpoints (r # routes) acc src) \<or> e \<in> set (buildEndpoints routes acc' src)"
    and same: "accHeaders acc' = accHeaders acc" "accBody acc' = accBody acc"
      "accTags acc' = accTags acc"
    using Cons.prems by (cases "rType r = ''GraphQL''") (auto simp: Let_def)
  have first: "Headers (hd (buildEndpoints (r # routes) acc src)) = accHeaders acc
      \<and> BodyRaw (hd (buildEndpoints (r # routes) acc src)) = accBody acc
      \<and> Tags (hd (buildEndpoints (r # routes) acc src)) = accTags acc"
    by (simp add: Let_def)
  show ?case
    using step first same Cons.IH [of acc'] by auto
qed

lemma buildEndpoints_routes:
  "map (\<lambda>e. (Method e, Path e, Desc e)) (buildEndpoints routes acc src)
     = map (\<lambda>r. (rMethod r, rPath r, rDesc r)) routes"
  by (induction routes arbitrary: acc) (auto simp: Let_def)

lemma example_routes:
  "groupRoutes exampleGroup =
     [\<lparr>rMethod = ''POST'', rPath = ''/api/users'', rDesc = ''Create user'', rType = ''REST'',
       rOperation = ''''\<rparr>]"
  by code_simp

lemma example_accumulated:
  \<open>groupAccumulated exampleGroup =
     \<lparr>accHeaders = [(''Content-Type'', ''application/json'')], accBody = ''{"a":1}'',
      accTags = [''users''], accGraphQL = None\<rparr>\<close>
  by code_simp

lemma shared_endpoints:
  \<open>scanCommentGroup sharedGroup ''ann.go''
     = [\<lparr>Method = ''POST'', Path = ''/v1/users'', SourceFile = ''ann.go'', Handler = '''',
         Desc = '''', Headers = [(''X-Id'', ''7'')],
         BodyRaw = ''{"n":1}'', Tags = [''users''], Type = ''REST'', GraphQL = None\<rparr>,
        \<lparr>Method = ''GET'', Path = ''/v1/users'', SourceFile = ''ann.go'', Handler = '''',
         Desc = '''', Headers = [(''X-Id'', ''7'')],
         BodyRaw = ''{"n":1}'', Tags = [''users''], Type = ''REST'', GraphQL = None\<rparr>]\<close>
  by code_simp

lemma copyPerRoute_props:
  "copyPerRoute routes acc h = (refs, h') \<Longrightarrow>
   length refs = length routes
   \<and> (\<exists>ext. h' = h @ ext)
   \<and> (\<forall>\<rho> \<in> set refs. \<forall>a \<in> set (addresses \<rho>). length h \<le> a \<and> a < length h')
   \<and> (\<forall>\<rho> \<in> set refs. headersOf h' \<rho> = Some (copyMap (accHeaders acc))
                        \<and> tagsOf h' \<rho> = Some (accTags acc))
   \<and> distinct (concat (map addresses refs))"
proof (induction routes arbitrary: h refs h')
  case Nil
  then show ?case by simp
next
  case (Cons r routes)
  define h1 where "h1 = h @ [MapObject (copyMap (accHeaders acc))]"
  define tcopy where "tcopy = (if accTags acc = [] then None else Some (length h1))"
  define h2 where "h2 = (if accTags acc = [] then h1 else h1 @ [ArrayObject (accTags acc)])"
  obtain refs' h3 where rec: "copyPerRoute routes acc h2 = (refs', h3)"
    by (cases "copyPerRoute routes acc h2") auto
  have res: "refs = \<lparr>HeadersAt = length h, TagsAt = tcopy\<rparr> # refs'" "h' = h3"
    using Cons.prems rec by (auto simp: Let_def h1_def h2_def tcopy_def split: if_splits)
  note IH = Cons.IH [OF rec]
  obtain ext where ext: "h3 = h2 @ ext" using IH by blast
  have len: "length h < length h2" "length h2 \<le> length h3"
    by (auto simp: h2_def h1_def ext)
  let ?\<rho> = "\<lparr>HeadersAt = length h, TagsAt = tcopy\<rparr>"
  have addr0: "\<forall>a \<in> set (addresses ?\<rho>). length h \<le> a \<and> a < length h2"
    by (auto simp: addresses_def tcopy_def h2_def h1_def)
  have d0: "distinct (addresses ?\<rho>)"
    by (auto simp: addresses_def tcopy_def h1_def)
  have h3_0: "h3 ! length h = MapObject (copyMap (accHeaders acc))"
    by (simp add: ext h2_def h1_def nth_append)
  have h3_1: "accTags acc \<noteq> [] \<Longrightarrow> h3 ! length h1 = ArrayObject (accTags acc)"
    by (simp add: ext h2_def h1_def nth_append)
  have deref0: "headersOf h3 ?\<rho> = Some (copyMap (accHeaders acc)) \<and> tagsOf h3 ?\<rho> = Some (accTags acc)"
    using h3_0 h3_1 len by (auto simp: headersOf_def tagsOf_def tcopy_def h2_def h1_def ext)
  have later: "\<forall>\<rho> \<in> set refs'. \<forall>a \<in> set (addresses \<rho>). length h2 \<le> a \<and> a < length h3"
    using IH by blast
  have disj: "set (addresses ?\<rho>) \<inter> set (concat (map addresses refs')) = {}"
    using addr0 later by fastforce
  have later': "\<forall>\<rho> \<in> set refs'. \<forall>a \<in> set (addresses \<rho>). length h \<le> a \<and> a < length h3"
    using later len by fastforce
  have addr0': "\<forall>a \<in> set (addresses ?\<rho>). length h \<le> a \<and> a < length h3"
    using addr0 len by fastforce
  have c1: "length refs = length (r # routes)"
    using IH res by simp
  have c2: "\<exists>ext. h' = h @ ext"
    by (auto simp: res ext h2_def h1_def)
  have c3: "\<forall>\<rho> \<in> set refs. \<forall>a \<in> set (addresses \<rho>). length h \<le> a \<and> a < length h'"
    unfolding res using later' addr0' by simp
  have c4: "\<forall>\<rho> \<in> set refs. headersOf h' \<rho> = Some (copyMap (accHeaders acc))
                        \<and> tagsOf h' \<rho> = Some (accTags acc)"
    unfolding res using deref0 IH by simp
  have c5: "distinct (concat (map addresses refs))"
    unfolding res using d0 disj IH by simp
  show ?case
    using c1 c2 c3 c4 c5 by blast
qed

lemma fold_update_append:
  "distinct (map fst (acc @ m)) \<Longrightarrow>
   fold (\<lambda>(k, v) hcopy. AList.update k v hcopy) m acc = acc @ m"
proof (induction m arbitrary: acc)
  case Nil
  then show ?case by simp
next
  case (Cons kv m)
  obtain k v where kv: "kv = (k, v)" by (cases kv)
  have "k \<notin> fst ` set acc" using Cons.prems kv by auto
  then have "AList.update k v acc = acc @ [(k, v)]"
    by (induction acc) auto
  then show ?case using Cons.IH [of "acc @ [(k, v)]"] Cons.prems kv by simp
qed

lemma copyMap_distinct: "distinct (map fst m) \<Longrightarrow> copyMap m = m"
  using fold_update_append [of "[]" m] by (simp add: copyMap_def)

lemma accumulate_distinct:
  "distinct (map fst (accHeaders acc)) \<Longrightarrow> distinct (map fst (accHeaders (accumulate line acc)))"
  by (auto simp: accumulate_def Let_def distinct_update split: option.splits)

lemma groupAccumulated_distinct: "distinct (map fst (accHeaders (groupAccumulated text)))"
proof -
  have "distinct (map fst (accHeaders acc)) \<Longrightarrow>
        distinct (map fst (accHeaders (fold accumulate ls acc)))" for ls acc
    by (induction ls arbitrary: acc) (auto simp: accumulate_distinct)
  then show ?thesis by (simp add: groupAccumulated_def)
qed

lemma map_const: "(\<forall>x \<in> set xs. f x = c) \<Longrightarrow> map f xs = replicate (length xs) c"
  by (induction xs) auto

lemma copies_hold_values:
  assumes "copyPerRoute (groupRoutes text) (groupAccumulated text) h = (refs, h')"
  shows "map (headersOf h') refs = map (\<lambda>e. Some (Headers e)) (scanCommentGroup text src)
       \<and> map (tagsOf h') refs = map (\<lambda>e. Some (Tags e)) (scanCommentGroup text src)"
proof -
  let ?acc = "groupAccumulated text"
  note props = copyPerRoute_props [OF assms]
  have len: "length (scanCommentGroup text src) = length refs"
    using props buildEndpoints_routes [of "groupRoutes text" ?acc src, THEN arg_cong, of length]
    by (simp add: scanCommentGroup_def)
  have copy: "copyMap (accHeaders ?acc) = accHeaders ?acc"
    by (rule copyMap_distinct) (rule groupAccumulated_distinct)
  have r1: "map (headersOf h') refs = replicate (length refs) (Some (accHeaders ?acc))"
    by (rule map_const) (use props copy in simp)
  have r2: "map (tagsOf h') refs = replicate (length refs) (Some (accTags ?acc))"
    by (rule map_const) (use props in simp)
  have e1: "map (\<lambda>e. Some (Headers e)) (scanCommentGroup text src)
              = replicate (length (scanCommentGroup text src)) (Some (accHeaders ?acc))"
    by (rule map_const) (use buildEndpoints_shared in \<open>auto simp: scanCommentGroup_def\<close>)
  have e2: "map (\<lambda>e. Some (Tags e)) (scanCommentGroup text src)
              = replicate (length (scanCommentGroup text src)) (Some (accTags ?acc))"
    by (rule map_const) (use buildEndpoints_shared in \<open>auto simp: scanCommentGroup_def\<close>)
  show ?thesis
    by (simp add: r1 r2 e1 e2 len)
qed

text \<open>
  Claim C8.  A file whose only comment group is the example yields exactly one endpoint:
  method POST, path \<open>/api/users\<close>, the header map with \<open>Content-Type\<close> mapped to
  \<open>application/json\<close>, the body \<open>{"a":1}\<close> and the tag list \<open>[users]\<close>.  For every comment
  group, there is one endpoint per declared route, in order, and every endpoint of the group
  carries the headers, the body and the tags accumulated over the whole group.  Each
  endpoint has its own copy of them: from any store \<open>h\<close>, the loop allocates the map and the
  tag array of every endpoint at addresses that are new (beyond \<open>h\<close>, where the accumulated
  map and list are) and pairwise distinct, and they hold the headers and the tags of that
  endpoint.
\<close>

theorem annotation_group:
  \<open>scanAnnotationsFromFile
      \<lparr>PackageName = pkg, Imports = imports, Comments = [exampleGroup], Decls = decls\<rparr> src
     = [\<lparr>Method = ''POST'', Path = ''/api/users'', SourceFile = src, Handler = '''',
         Desc = ''Create user'', Headers = [(''Content-Type'', ''application/json'')],
         BodyRaw = ''{"a":1}'', Tags = [''users''], Type = ''REST'', GraphQL = None\<rparr>]
   \<and> map_of [(''Content-Type'', ''application/json'')] ''Content-Type'' = Some ''application/json''
   \<and> map (\<lambda>e. (Method e, Path e, Desc e)) (scanCommentGroup text src)
       = map (\<lambda>r. (rMethod r, rPath r, rDesc r)) (groupRoutes text)
   \<and> (\<forall>e \<in> set (scanCommentGroup text src).
         Headers e = accHeaders (groupAccumulated text)
         \<and> BodyRaw e = accBody (groupAccumulated text)
         \<and> Tags e = accTags (groupAccumulated text))
   \<and> (case copyPerRoute (groupRoutes text) (groupAccumulated text) h of
         (refs, h') \<Rightarrow>
           map (headersOf h') refs = map (\<lambda>e. Some (Headers e)) (scanCommentGroup text src)
           \<and> map (tagsOf h') refs = map (\<lambda>e. Some (Tags e)) (scanCommentGroup text src)
           \<and> distinct (concat (map addresses refs))
           \<and> (\<forall>\<rho> \<in> set refs. \<forall>a \<in> set (addresses \<rho>). length h \<le> a))\<close>
proof -
  have "e \<in> set (scanCommentGroup text src) \<Longrightarrow>
         Headers e = accHeaders (groupAccumulated text)
         \<and> BodyRaw e = accBody (groupAccumulated text)
         \<and> Tags e = accTags (groupAccumulated text)" for e
    unfolding scanCommentGroup_def by (rule buildEndpoints_shared)
  then have shared: "\<forall>e \<in> set (scanCommentGroup text src).
         Headers e = accHeaders (groupAccumulated text)
         \<and> BodyRaw e = accBody (groupAccumulated text)
         \<and> Tags e = accTags (groupAccumulated text)"
    by blast
  have one: \<open>scanAnnotationsFromFile
      \<lparr>PackageName = pkg, Imports = imports, Comments = [exampleGroup], Decls = decls\<rparr> src
     = [\<lparr>Method = ''POST'', Path = ''/api/users'', SourceFile = src, Handler = '''',
         Desc = ''Create user'', Headers = [(''Content-Type'', ''application/json'')],
         BodyRaw = ''{"a":1}'', Tags = [''users''], Type = ''REST'', GraphQL = None\<rparr>]\<close>
    by (simp add: scanAnnotationsFromFile_def scanCommentGroup_def example_routes
          example_accumulated)
  have routes: "map (\<lambda>e. (Method e, Path e, Desc e)) (scanCommentGroup text src)
       = map (\<lambda>r. (rMethod r, rPath r, rDesc r)) (groupRoutes text)"
    unfolding scanCommentGroup_def by (rule buildEndpoints_routes)
  obtain refs h' where
    cp: "copyPerRoute (groupRoutes text) (groupAccumulated text) h = (refs, h')"
    by (cases "copyPerRoute (groupRoutes text) (groupAccumulated text) h") auto
  have copies: "map (headersOf h') refs = map (\<lambda>e. Some (Headers e)) (scanCommentGroup text src)
           \<and> map (tagsOf h') refs = map (\<lambda>e. Some (Tags e)) (scanCommentGroup text src)
           \<and> distinct (concat (map addresses refs))
           \<and> (\<forall>\<rho> \<in> set refs. \<forall>a \<in> set (addresses \<rho>). length h \<le> a)"
    using copies_hold_values [OF cp, of src] copyPerRoute_props [OF cp] by blast
  show ?thesis
    using one routes shared copies by (simp add: cp)
qed

lemma shared_copies:
  \<open>copyPerRoute (groupRoutes sharedGroup) (groupAccumulated sharedGroup)
      [MapObject [(''X-Id'', ''7'')], ArrayObject [''users'']]
     = ([\<lparr>HeadersAt = 2, TagsAt = Some 3\<rparr>, \<lparr>HeadersAt = 4, TagsAt = Some 5\<rparr>],
        [MapObject [(''X-Id'', ''7'')], ArrayObject [''users''],
         MapObject [(''X-Id'', ''7'')], ArrayObject [''users''],
         MapObject [(''X-Id'', ''7'')], ArrayObject [''users'']])\<close>
  by code_simp

theorem annotation_group_witness:
  \<open>scanCommentGroup sharedGroup ''ann.go''
     = [\<lparr>Method = ''POST'', Path = ''/v1/users'', SourceFile = ''ann.go'', Handler = '''',
         Desc = '''', Headers = [(''X-Id'', ''7'')],
         BodyRaw = ''{"n":1}'', Tags = [''users''], Type = ''REST'', GraphQL = None\<rparr>,
        \<lparr>Method = ''GET'', Path = ''/v1/users'', SourceFile = ''ann.go'', Handler = '''',
         Desc = '''', Headers = [(''X-Id'', ''7'')],
         BodyRaw = ''{"n":1}'', Tags = [''users''], Type = ''REST'', GraphQL = None\<rparr>]
   \<and> map (\<lambda>e. (Method e, Path e, Desc e)) (scanCommentGroup sharedGroup ''ann.go'')
       = map (\<lambda>r. (rMethod r, rPath r, rDesc r)) (groupRoutes sharedGroup)
   \<and> accHeaders (groupAccumulated sharedGroup) = [(''X-Id'', ''7'')]
   \<and> accBody (groupAccumulated sharedGroup) = ''{"n":1}''
   \<and> accTags (groupAccumulated sharedGroup) = [''users'']
   \<and> copyPerRoute (groupRoutes sharedGroup) (groupAccumulated sharedGroup)
        [MapObject [(''X-Id'', ''7'')], ArrayObject [''users'']]
       = ([\<lparr>HeadersAt = 2, TagsAt = Some 3\<rparr>, \<lparr>HeadersAt = 4, TagsAt = Some 5\<rparr>],
          [MapObject [(''X-Id'', ''7'')], ArrayObject [''users''],
           MapObject [(''X-Id'', ''7'')], ArrayObject [''users''],
           MapObject [(''X-Id'', ''7'')], ArrayObject [''users'']])
   \<and> distinct (concat (map addresses
         [\<lparr>HeadersAt = 2, TagsAt = Some 3\<rparr>, \<lparr>HeadersAt = 4, TagsAt = Some 5\<rparr>]))\<close>
proof -
  note group = annotation_group [of "''main''" "[]" "[]" "''ann.go''" sharedGroup
          "[MapObject [(''X-Id'', ''7'')], ArrayObject [''users'']]"]
  have routes: "map (\<lambda>e. (Method e, Path e, Desc e)) (scanCommentGroup sharedGroup ''ann.go'')
       = map (\<lambda>r. (rMethod r, rPath r, rDesc r)) (groupRoutes sharedGroup)"
    by (rule group [THEN conjunct2, THEN conjunct2, THEN conjunct1])
  have acc: \<open>accHeaders (groupAccumulated sharedGroup) = [(''X-Id'', ''7'')]
      \<and> accBody (groupAccumulated sharedGroup) = ''{"n":1}''
      \<and> accTags (groupAccumulated sharedGroup) = [''users'']\<close>
    by code_simp
  have dist: "distinct (concat (map addresses
         [\<lparr>HeadersAt = 2, TagsAt = Some 3\<rparr>, \<lparr>HeadersAt = 4, TagsAt = Some 5\<rparr>]))"
    by (simp add: addresses_def)
  show ?thesis
    using shared_endpoints routes acc shared_copies dist by blast
qed

section \<open>Paths and methods of the endpoints returned\<close>

lemma methodOK_upper: "methodOK m \<Longrightarrow> ToUpper m = m"
  by (auto simp: methodOK_def verbSet_def ToUpper_def toUpperChar_def lower_letters_def
        upper_letters_def)

lemma hasPrefix_slash: "HasPrefix (CHR ''/'' # p) ''/''"
  by (simp add: HasPrefix_def)

lemma add_wellFormed:
  assumes "allWellFormed st" and "Method e0 = '''' \<or> methodOK (Method e0)"
  shows "allWellFormed (add e0 st)"
proof -
  have any: "methodOK ''ANY''" by (simp add: methodOK_def)
  show ?thesis
    using assms any methodOK_upper [of "Method e0"] methodOK_upper [of "''ANY''"]
    by (auto simp: add_def Let_def allWellFormed_def wellFormed_def hasPrefix_slash)
qed

lemma fold_add_wellFormed:
  assumes "allWellFormed st" and "\<And>e. e \<in> set es \<Longrightarrow> methodOK (Method e)"
  shows "allWellFormed (fold add es st)"
  by (rule fold_preserves [where P = allWellFormed]) (use assms add_wellFormed in auto)

lemma stringArg_verbs: "m \<in> set (stringArg Unquote a) \<Longrightarrow> m \<in> set verbSet"
  by (induction Unquote a rule: stringArg.induct) (auto simp: Let_def split: option.splits if_splits)

lemma stringArgs_verbs: "m \<in> set (stringArgs Unquote args) \<Longrightarrow> m \<in> set verbSet"
  by (auto simp: stringArgs_def stringArg_verbs)

lemma findChainedMethods_verbs: "m \<in> set (findChainedMethods Unquote n) \<Longrightarrow> m \<in> set verbSet"
  by (induction Unquote n rule: findChainedMethods.induct)
     (auto simp: stringArgs_verbs split: node.splits if_splits)

lemma restEndpoint_method [simp]: "Method (restEndpoint m p fl handler body) = m"
  by (simp add: restEndpoint_def)

lemma fold_add_rest_wellFormed:
  assumes "allWellFormed st" and "\<And>m. m \<in> set ms \<Longrightarrow> m \<in> set verbSet"
  shows "allWellFormed (fold (\<lambda>m. add (restEndpoint m p fl handler (body m))) ms st)"
  by (rule fold_preserves [where P = allWellFormed])
     (use assms in \<open>auto intro!: add_wellFormed simp: methodOK_def\<close>)

lemma methodsBlock_wellFormed:
  "allWellFormed st \<Longrightarrow> allWellFormed (methodsBlock Unquote fl n st)"
  by (induction Unquote fl n st rule: methodsBlock.induct)
     (auto intro!: fold_add_rest_wellFormed simp: stringArgs_verbs split: option.splits)

lemma verbBlock_wellFormed:
  "allWellFormed st \<Longrightarrow> allWellFormed (verbBlock Unquote bodies fl n st)"
  by (induction Unquote bodies fl n st rule: verbBlock.induct)
     (auto intro!: add_wellFormed simp: Let_def isVerb_def methodOK_def split: option.splits)

lemma postBlock_wellFormed:
  "allWellFormed st \<Longrightarrow> allWellFormed (postBlock Unquote bodies fl n st)"
  by (induction Unquote bodies fl n st rule: postBlock.induct)
     (auto intro!: add_wellFormed simp: Let_def methodOK_def verbSet_def split: option.splits)

lemma handleBlock_wellFormed:
  "allWellFormed st \<Longrightarrow> allWellFormed (handleBlock name Unquote bodies fl n st)"
  by (induction name Unquote bodies fl n st rule: handleBlock.induct)
     (auto intro!: add_wellFormed fold_add_rest_wellFormed dest: findChainedMethods_verbs
           simp: Let_def methodOK_def simp del: findChainedMethods.simps split: option.splits)

lemma callVisitor_wellFormed:
  "allWellFormed st \<Longrightarrow> allWellFormed (snd (callVisitor Unquote bodies fl n st))"
  by (induction Unquote bodies fl n st rule: callVisitor.induct)
     (simp_all add: Let_def methodsBlock_wellFormed verbBlock_wellFormed postBlock_wellFormed
        handleBlock_wellFormed
        del: methodsBlock.simps verbBlock.simps postBlock.simps handleBlock.simps)

lemma lineRoutes_methods: "r \<in> set (lineRoutes line) \<Longrightarrow> methodOK (rMethod r)"
  by (auto simp: lineRoutes_def methodRoute_def methodOK_def Let_def verbSet_def
           split: option.splits if_splits)

lemma buildEndpoints_from_route:
  "e \<in> set (buildEndpoints routes acc src) \<Longrightarrow>
   \<exists>r \<in> set routes. Method e = rMethod r \<and> Path e = rPath r"
proof (induction routes arbitrary: acc)
  case Nil
  then show ?case by simp
next
  case (Cons r routes)
  obtain acc' where
    "e = hd (buildEndpoints (r # routes) acc src) \<or> e \<in> set (buildEndpoints routes acc' src)"
    using Cons.prems by (cases "rType r = ''GraphQL''") (auto simp: Let_def)
  moreover have "Method (hd (buildEndpoints (r # routes) acc src)) = rMethod r
      \<and> Path (hd (buildEndpoints (r # routes) acc src)) = rPath r"
    by (simp add: Let_def)
  ultimately show ?case using Cons.IH [of acc'] by auto
qed

lemma annotation_methods:
  "e \<in> set (scanAnnotationsFromFile fl path) \<Longrightarrow> methodOK (Method e)"
proof -
  assume "e \<in> set (scanAnnotationsFromFile fl path)"
  then obtain grp where "e \<in> set (scanCommentGroup grp path)"
    by (auto simp: scanAnnotationsFromFile_def)
  then obtain r where "r \<in> set (groupRoutes grp)" "Method e = rMethod r"
    unfolding scanCommentGroup_def using buildEndpoints_from_route by blast
  then show ?thesis
    using lineRoutes_methods by (auto simp: groupRoutes_def)
qed

lemma scanFile_wellFormed:
  assumes "allWellFormed st"
  shows "allWellFormed (fst (scanFile Unquote bodies path parsed st))"
proof (cases "isGoSource path")
  case False
  then show ?thesis using assms by (simp add: scanFile_def)
next
  case True
  show ?thesis
  proof (cases parsed)
    case None
    then show ?thesis using assms True by (simp add: scanFile_def)
  next
    case (Some fl)
    have a: "allWellFormed (fold add (scanAnnotationsFromFile fl path) st)"
      by (rule fold_add_wellFormed [OF assms]) (rule annotation_methods)
    have "allWellFormed (fold (inspect (callVisitor Unquote bodies path)) (Decls fl)
             (fold add (scanAnnotationsFromFile fl path) st))"
      by (rule fold_preserves [where P = allWellFormed, OF _ a])
         (rule inspect_preserves [where P = allWellFormed], rule callVisitor_wellFormed)
    then show ?thesis using True Some by (simp add: scanFile_def Let_def)
  qed
qed

lemma ScanDir_result:
  "fst (fst (ScanDir Unquote rangeOrder g rootDir)) = [] \<or>
   (\<exists>bodies. fst (fst (ScanDir Unquote rangeOrder g rootDir)) =
      endpoints (fst (walkDir scanSkipDir (scanFile Unquote bodies) rootDir
                        \<lparr>endpoints = [], seen = {}\<rparr>)))"
proof -
  define g' where "g' = (case AnalyzeProject rangeOrder rootDir of Inl projectErr \<Rightarrow> g
                         | Inr projectAnalysis \<Rightarrow> Some projectAnalysis)"
  obtain bodies err1 where p1:
    "walkDir scanSkipDir (collectBodies g') rootDir Map.empty = (bodies, err1)"
    by (cases "walkDir scanSkipDir (collectBodies g') rootDir Map.empty")
  show ?thesis
  proof (cases err1)
    case (Some e)
    then have "fst (fst (ScanDir Unquote rangeOrder g rootDir)) = []"
      using p1 by (simp add: ScanDir_def Let_def g'_def)
    then show ?thesis by simp
  next
    case None
    then have "fst (fst (ScanDir Unquote rangeOrder g rootDir)) =
      endpoints (fst (walkDir scanSkipDir (scanFile Unquote bodies) rootDir
                        \<lparr>endpoints = [], seen = {}\<rparr>))"
      using p1 by (simp add: ScanDir_def Let_def g'_def split: prod.splits)
    then show ?thesis by blast
  qed
qed

text \<open>
  Claim C2.  Every endpoint in the list that \<open>ScanDir\<close> returns, from an annotation or from a
  call, has a path that begins with \<open>/\<close> and a method that is \<open>ANY\<close> or one of the verbs \<open>GET\<close>,
  \<open>POST\<close>, \<open>PUT\<close>, \<open>DELETE\<close>, \<open>PATCH\<close>, \<open>HEAD\<close>, \<open>OPTIONS\<close>; the method is in upper case.  This
  holds for every directory tree, whatever \<open>Unquote\<close> does with a literal, whatever the order
  of the struct map and the value of \<open>globalProjectAnalysis\<close>.
\<close>

theorem scanned_endpoints_well_formed:
  "\<forall>e \<in> set (fst (fst (ScanDir Unquote rangeOrder g rootDir))).
     HasPrefix (Path e) ''/'' \<and> (Method e = ''ANY'' \<or> Method e \<in> set verbSet)
     \<and> ToUpper (Method e) = Method e"
proof -
  have init: "allWellFormed \<lparr>endpoints = [], seen = {}\<rparr>"
    by (simp add: allWellFormed_def)
  have "allWellFormed (fst (walkDir scanSkipDir (scanFile Unquote bodies) rootDir
                        \<lparr>endpoints = [], seen = {}\<rparr>))" for bodies
    by (rule walk_preserves(1) [where P = allWellFormed, OF _ init]) (rule scanFile_wellFormed)
  then have "\<forall>e \<in> set (fst (fst (ScanDir Unquote rangeOrder g rootDir))). wellFormed e"
    using ScanDir_result [of Unquote rangeOrder g rootDir] by (auto simp: allWellFormed_def)
  then show ?thesis
    using methodOK_upper by (auto simp: wellFormed_def methodOK_def)
qed

text \<open>A file with an annotation in lower case and without the slash, a call of a verb
  method and a call of \<open>HandleFunc\<close>.\<close>

theorem scanned_endpoints_well_formed_witness:
  "map (\<lambda>e. (Method e, Path e)) (fst (fst (ScanDir simpleUnquote id None mixedTree)))
     = [(''GET'', ''/users''), (''DELETE'', ''/v1/orders/{id}''), (''ANY'', ''/health'')]
   \<and> list_all (\<lambda>e. HasPrefix (Path e) ''/'' \<and> (Method e = ''ANY'' \<or> Method e \<in> set verbSet)
                    \<and> ToUpper (Method e) = Method e)
        (fst (fst (ScanDir simpleUnquote id None mixedTree)))"
proof -
  have a: "map (\<lambda>e. (Method e, Path e)) (fst (fst (ScanDir simpleUnquote id None mixedTree)))
     = [(''GET'', ''/users''), (''DELETE'', ''/v1/orders/{id}''), (''ANY'', ''/health'')]"
    by code_simp
  have b: "list_all (\<lambda>e. HasPrefix (Path e) ''/'' \<and> (Method e = ''ANY'' \<or> Method e \<in> set verbSet)
                    \<and> ToUpper (Method e) = Method e)
        (fst (fst (ScanDir simpleUnquote id None mixedTree)))"
    using scanned_endpoints_well_formed [of simpleUnquote id None mixedTree]
    by (simp add: list_all_iff)
  from a b show ?thesis ..
qed


section \<open>Scanning twice, and endpoints with the same key\<close>

lemma toUpperChar_idem: "toUpperChar (toUpperChar c) = toUpperChar c"
proof (cases "map_of (zip lower_letters upper_letters) c")
  case None
  then show ?thesis by (simp add: toUpperChar_def)
next
  case (Some d)
  then have "d \<in> set upper_letters"
    by (auto dest!: map_of_SomeD set_zip_rightD)
  then have "d \<notin> set lower_letters"
    by (auto simp: upper_letters_def lower_letters_def)
  then have "map_of (zip lower_letters upper_letters) d = None"
    by (simp add: map_of_eq_None_iff lower_letters_def upper_letters_def)
  then show ?thesis using Some by (simp add: toUpperChar_def)
qed

lemma ToUpper_idem: "ToUpper (ToUpper s) = ToUpper s"
  by (simp add: ToUpper_def toUpperChar_idem)

lemma add_eq:
  "add e0 st =
     (if endpointKey (addedEndpoint e0) \<in> seen st then st
      else st\<lparr>seen := insert (endpointKey (addedEndpoint e0)) (seen st),
              endpoints := endpoints st @ [addedEndpoint e0]\<rparr>)"
  by (simp add: add_def addedEndpoint_def Let_def endpointKey_def ToUpper_idem)

lemma add_keysSeen: "keysSeen st \<Longrightarrow> keysSeen (add e0 st)"
  by (auto simp: add_eq keysSeen_def)

lemma methodsBlock_closed:
  "(\<And>e s. P s \<Longrightarrow> P (add e s)) \<Longrightarrow> P st \<Longrightarrow> P (methodsBlock Unquote fl n st)"
  by (induction Unquote fl n st rule: methodsBlock.induct)
     (auto intro!: fold_preserves [where P = P] split: option.splits)

lemma verbBlock_closed:
  "(\<And>e s. P s \<Longrightarrow> P (add e s)) \<Longrightarrow> P st \<Longrightarrow> P (verbBlock Unquote bodies fl n st)"
  by (induction Unquote bodies fl n st rule: verbBlock.induct)
     (auto simp: Let_def split: option.splits)

lemma postBlock_closed:
  "(\<And>e s. P s \<Longrightarrow> P (add e s)) \<Longrightarrow> P st \<Longrightarrow> P (postBlock Unquote bodies fl n st)"
  by (induction Unquote bodies fl n st rule: postBlock.induct)
     (auto simp: Let_def split: option.splits)

lemma handleBlock_closed:
  "(\<And>e s. P s \<Longrightarrow> P (add e s)) \<Longrightarrow> P st \<Longrightarrow> P (handleBlock name Unquote bodies fl n st)"
  by (induction name Unquote bodies fl n st rule: handleBlock.induct)
     (auto intro!: fold_preserves [where P = P] simp: Let_def
           simp del: findChainedMethods.simps split: option.splits)

lemma callVisitor_closed:
  assumes "\<And>e s. P s \<Longrightarrow> P (add e s)" and "P st"
  shows "P (snd (callVisitor Unquote bodies fl n st))"
  using assms(2)
  by (induction Unquote bodies fl n st rule: callVisitor.induct)
     (simp_all add: Let_def methodsBlock_closed verbBlock_closed postBlock_closed
        handleBlock_closed assms(1)
        del: methodsBlock.simps verbBlock.simps postBlock.simps handleBlock.simps)

lemma scanFile_closed:
  assumes cl: "\<And>e s. P s \<Longrightarrow> P (add e s)" and "P st"
  shows "P (fst (scanFile Unquote bodies path parsed st))"
proof (cases "isGoSource path")
  case False
  then show ?thesis using assms by (simp add: scanFile_def)
next
  case True
  show ?thesis
  proof (cases parsed)
    case None
    then show ?thesis using assms True by (simp add: scanFile_def)
  next
    case (Some fl)
    have a: "P (fold add (scanAnnotationsFromFile fl path) st)"
      by (rule fold_preserves [where P = P]) (use assms in auto)
    have "P (fold (inspect (callVisitor Unquote bodies path)) (Decls fl)
             (fold add (scanAnnotationsFromFile fl path) st))"
      by (rule fold_preserves [where P = P, OF _ a])
         (rule inspect_preserves [where P = P], rule callVisitor_closed, rule cl)
    then show ?thesis using True Some by (simp add: scanFile_def Let_def)
  qed
qed

lemma ScanDir_closed:
  assumes cl: "\<And>e s. P s \<Longrightarrow> P (add e s)" and init: "P \<lparr>endpoints = [], seen = {}\<rparr>"
  shows "\<exists>st. P st \<and> fst (fst (ScanDir Unquote rangeOrder g rootDir)) = endpoints st"
proof -
  have "P (fst (walkDir scanSkipDir (scanFile Unquote bodies) rootDir
                        \<lparr>endpoints = [], seen = {}\<rparr>))" for bodies
    by (rule walk_preserves(1) [where P = P, OF _ init]) (rule scanFile_closed, rule cl)
  then show ?thesis
    using ScanDir_result [of Unquote rangeOrder g rootDir] init
    by (metis scan_state.select_convs(1))
qed

lemma ScanDir_global:
  "snd (ScanDir Unquote rangeOrder g rootDir) =
     (case AnalyzeProject rangeOrder rootDir of Inl projectErr \<Rightarrow> g | Inr a \<Rightarrow> Some a)"
  by (simp add: ScanDir_def Let_def split: prod.splits option.splits sum.splits)

lemma ScanDir_twice:
  "ScanDir Unquote rangeOrder (snd (ScanDir Unquote rangeOrder g rootDir)) rootDir = ScanDir Unquote rangeOrder g rootDir"
  by (cases "AnalyzeProject rangeOrder rootDir") (simp_all add: ScanDir_global, simp_all add: ScanDir_def)

lemma key_withoutBody: "endpointKey (withoutBody e) = endpointKey e"
  by (simp add: endpointKey_def withoutBody_def)

lemma added_withoutBody: "withoutBody (addedEndpoint e) = addedEndpoint (withoutBody e)"
  by (simp add: addedEndpoint_def withoutBody_def Let_def)

lemma add_rel:
  assumes "withoutBody e1 = withoutBody e2" and "sameButBodies st1 st2"
  shows "sameButBodies (add e1 st1) (add e2 st2)"
proof -
  have w: "withoutBody (addedEndpoint e1) = withoutBody (addedEndpoint e2)"
    using assms(1) by (simp add: added_withoutBody)
  then have "endpointKey (addedEndpoint e1) = endpointKey (addedEndpoint e2)"
    using key_withoutBody by metis
  then show ?thesis
    using assms(2) w by (simp add: add_eq sameButBodies_def)
qed

lemma rest_withoutBody:
  "withoutBody (restEndpoint m p fl handler b1) = withoutBody (restEndpoint m p fl handler b2)"
  by (simp add: restEndpoint_def withoutBody_def)

lemma methodsBlock_rel:
  "sameButBodies st1 st2 \<Longrightarrow>
   sameButBodies (methodsBlock Unquote fl n st1) (methodsBlock Unquote fl n st2)"
  by (induction Unquote fl n st1 rule: methodsBlock.induct)
     (auto intro!: fold_rel [where R = sameButBodies] add_rel split: option.splits)

lemma verbBlock_rel:
  "sameButBodies st1 st2 \<Longrightarrow>
   sameButBodies (verbBlock Unquote bodies1 fl n st1) (verbBlock Unquote bodies2 fl n st2)"
  by (induction Unquote bodies1 fl n st1 rule: verbBlock.induct)
     (auto intro!: add_rel rest_withoutBody simp: Let_def split: option.splits)

lemma postBlock_rel:
  "sameButBodies st1 st2 \<Longrightarrow>
   sameButBodies (postBlock Unquote bodies1 fl n st1) (postBlock Unquote bodies2 fl n st2)"
  by (induction Unquote bodies1 fl n st1 rule: postBlock.induct)
     (auto intro!: add_rel rest_withoutBody simp: Let_def split: option.splits)

lemma handleBlock_rel:
  "sameButBodies st1 st2 \<Longrightarrow>
   sameButBodies (handleBlock name Unquote bodies1 fl n st1)
     (handleBlock name Unquote bodies2 fl n st2)"
  by (induction name Unquote bodies1 fl n st1 rule: handleBlock.induct)
     (auto intro!: add_rel rest_withoutBody fold_rel [where R = sameButBodies]
           simp: Let_def simp del: findChainedMethods.simps split: option.splits)

lemma callVisitor_rel:
  assumes "sameButBodies st1 st2"
  shows "fst (callVisitor Unquote bodies1 fl n st1) = fst (callVisitor Unquote bodies2 fl n st2)
     \<and> sameButBodies (snd (callVisitor Unquote bodies1 fl n st1))
          (snd (callVisitor Unquote bodies2 fl n st2))"
  using assms
  by (induction Unquote bodies1 fl n st1 rule: callVisitor.induct)
     (simp_all add: Let_def methodsBlock_rel verbBlock_rel postBlock_rel handleBlock_rel
        del: methodsBlock.simps verbBlock.simps postBlock.simps handleBlock.simps)

lemma scanFile_rel:
  assumes "sameButBodies st1 st2"
  shows "sameButBodies (fst (scanFile Unquote bodies1 path parsed st1))
           (fst (scanFile Unquote bodies2 path parsed st2))
       \<and> snd (scanFile Unquote bodies1 path parsed st1)
           = snd (scanFile Unquote bodies2 path parsed st2)"
proof (cases "isGoSource path")
  case False
  then show ?thesis using assms by (simp add: scanFile_def)
next
  case True
  show ?thesis
  proof (cases parsed)
    case None
    then show ?thesis using assms True by (simp add: scanFile_def)
  next
    case (Some fl)
    have a: "sameButBodies (fold add (scanAnnotationsFromFile fl path) st1)
               (fold add (scanAnnotationsFromFile fl path) st2)"
      by (rule fold_rel [where R = sameButBodies]) (use assms add_rel in auto)
    have "sameButBodies
            (fold (inspect (callVisitor Unquote bodies1 path)) (Decls fl)
               (fold add (scanAnnotationsFromFile fl path) st1))
            (fold (inspect (callVisitor Unquote bodies2 path)) (Decls fl)
               (fold add (scanAnnotationsFromFile fl path) st2))"
      by (rule fold_rel [where R = sameButBodies, OF _ a])
         (rule inspect_rel [where R = sameButBodies], rule callVisitor_rel)
    then show ?thesis using True Some by (simp add: scanFile_def Let_def)
  qed
qed

lemma collectBodies_errors:
  "snd (walkDir scanSkipDir (collectBodies g1) e m1)
     = snd (walkDir scanSkipDir (collectBodies g2) e m2)"
proof -
  have "(\<lambda>a b. True) (fst (walkDir scanSkipDir (collectBodies g1) e m1))
          (fst (walkDir scanSkipDir (collectBodies g2) e m2))
        \<and> snd (walkDir scanSkipDir (collectBodies g1) e m1)
            = snd (walkDir scanSkipDir (collectBodies g2) e m2)"
    by (rule walk_rel(1) [where R = "\<lambda>a b. True"])
       (auto simp: collectBodies_def split: option.splits)
  then show ?thesis by simp
qed

lemma secondPass_rel:
  "sameButBodies
      (fst (walkDir scanSkipDir (scanFile Unquote b1) rootDir \<lparr>endpoints = [], seen = {}\<rparr>))
      (fst (walkDir scanSkipDir (scanFile Unquote b2) rootDir \<lparr>endpoints = [], seen = {}\<rparr>))
    \<and> snd (walkDir scanSkipDir (scanFile Unquote b1) rootDir \<lparr>endpoints = [], seen = {}\<rparr>)
      = snd (walkDir scanSkipDir (scanFile Unquote b2) rootDir \<lparr>endpoints = [], seen = {}\<rparr>)"
proof -
  have init: "sameButBodies \<lparr>endpoints = [], seen = {}\<rparr> \<lparr>endpoints = [], seen = {}\<rparr>"
    by (simp add: sameButBodies_def)
  show ?thesis
    by (rule walk_rel(1) [where R = sameButBodies, OF _ init]) (rule scanFile_rel)
qed

lemma ScanDir_rel:
  "map withoutBody (fst (fst (ScanDir Unquote o1 g1 rootDir)))
     = map withoutBody (fst (fst (ScanDir Unquote o2 g2 rootDir)))
   \<and> snd (fst (ScanDir Unquote o1 g1 rootDir)) = snd (fst (ScanDir Unquote o2 g2 rootDir))"
proof -
  define h1 where "h1 = (case AnalyzeProject o1 rootDir of Inl projectErr \<Rightarrow> g1
                         | Inr projectAnalysis \<Rightarrow> Some projectAnalysis)"
  define h2 where "h2 = (case AnalyzeProject o2 rootDir of Inl projectErr \<Rightarrow> g2
                         | Inr projectAnalysis \<Rightarrow> Some projectAnalysis)"
  obtain b1 err1 where p1: "walkDir scanSkipDir (collectBodies h1) rootDir Map.empty = (b1, err1)"
    by (cases "walkDir scanSkipDir (collectBodies h1) rootDir Map.empty")
  obtain b2 err2 where p2: "walkDir scanSkipDir (collectBodies h2) rootDir Map.empty = (b2, err2)"
    by (cases "walkDir scanSkipDir (collectBodies h2) rootDir Map.empty")
  have errs: "err1 = err2"
    using collectBodies_errors [of h1 rootDir Map.empty h2 Map.empty] p1 p2 by simp
  have second: "sameButBodies
      (fst (walkDir scanSkipDir (scanFile Unquote b1) rootDir \<lparr>endpoints = [], seen = {}\<rparr>))
      (fst (walkDir scanSkipDir (scanFile Unquote b2) rootDir \<lparr>endpoints = [], seen = {}\<rparr>))
    \<and> snd (walkDir scanSkipDir (scanFile Unquote b1) rootDir \<lparr>endpoints = [], seen = {}\<rparr>)
      = snd (walkDir scanSkipDir (scanFile Unquote b2) rootDir \<lparr>endpoints = [], seen = {}\<rparr>)"
    by (rule secondPass_rel)
  show ?thesis
  proof (cases err1)
    case (Some e)
    then show ?thesis
      using p1 p2 errs by (simp add: ScanDir_def Let_def h1_def h2_def)
  next
    case None
    then show ?thesis
      using p1 p2 errs second
      by (auto simp: ScanDir_def Let_def h1_def h2_def sameButBodies_def split: prod.splits)
  qed
qed

text \<open>
  Claim C9, as the code has it.  Two successive calls of \<open>ScanDir\<close> on the same tree return
  the same error and lists that agree in length, in order and in every field of every
  endpoint except \<open>BodyRaw\<close>: the list does not grow.  This holds whatever bodies the first
  pass has collected, hence whatever order the struct map is visited in and whatever value
  \<open>globalProjectAnalysis\<close> had before.  The body of a call-derived endpoint is rendered from
  the first struct that a \<open>range\<close> over the struct map finds to match, so it depends on the
  order of that loop, which Go leaves open; two calls that visit the map in the same order
  return the same result.  Within one call no two endpoints of the list have the same key
  (method in upper case, path with its slash, source file, tags joined by commas), and \<open>add\<close>
  leaves the list as it is when the key of the endpoint is that of an earlier one, and
  appends the endpoint otherwise.
\<close>

theorem scan_repeatable_and_deduplicated:
  "map withoutBody (fst (fst (ScanDir Unquote order2
        (snd (ScanDir Unquote order1 g rootDir)) rootDir)))
     = map withoutBody (fst (fst (ScanDir Unquote order1 g rootDir)))
   \<and> snd (fst (ScanDir Unquote order2 (snd (ScanDir Unquote order1 g rootDir)) rootDir))
     = snd (fst (ScanDir Unquote order1 g rootDir))
   \<and> map withoutBody (endpoints (fst (walkDir scanSkipDir (scanFile Unquote bodies2) rootDir
                                          \<lparr>endpoints = [], seen = {}\<rparr>)))
     = map withoutBody (endpoints (fst (walkDir scanSkipDir (scanFile Unquote bodies1) rootDir
                                          \<lparr>endpoints = [], seen = {}\<rparr>)))
   \<and> ScanDir Unquote order1 (snd (ScanDir Unquote order1 g rootDir)) rootDir
     = ScanDir Unquote order1 g rootDir
   \<and> distinct (map endpointKey (fst (fst (ScanDir Unquote order1 g rootDir))))
   \<and> (keysSeen st \<longrightarrow>
        add e st =
          (if endpointKey (addedEndpoint e) \<in> endpointKey ` set (endpoints st) then st
           else st\<lparr>seen := insert (endpointKey (addedEndpoint e)) (seen st),
                   endpoints := endpoints st @ [addedEndpoint e]\<rparr>)
        \<and> keysSeen (add e st))"
proof -
  have "keysSeen \<lparr>endpoints = [], seen = {}\<rparr>" by (simp add: keysSeen_def)
  then obtain st' where
    "keysSeen st'" "fst (fst (ScanDir Unquote order1 g rootDir)) = endpoints st'"
    using ScanDir_closed [where P = keysSeen, OF add_keysSeen] by blast
  then have d: "distinct (map endpointKey (fst (fst (ScanDir Unquote order1 g rootDir))))"
    by (simp add: keysSeen_def)
  have a: "keysSeen st \<Longrightarrow> add e st =
          (if endpointKey (addedEndpoint e) \<in> endpointKey ` set (endpoints st) then st
           else st\<lparr>seen := insert (endpointKey (addedEndpoint e)) (seen st),
                   endpoints := endpoints st @ [addedEndpoint e]\<rparr>)"
    using add_eq [of e st] by (simp add: keysSeen_def)
  have w: "map withoutBody (endpoints (fst (walkDir scanSkipDir (scanFile Unquote bodies2) rootDir
                                          \<lparr>endpoints = [], seen = {}\<rparr>)))
     = map withoutBody (endpoints (fst (walkDir scanSkipDir (scanFile Unquote bodies1) rootDir
                                          \<lparr>endpoints = [], seen = {}\<rparr>)))"
    using secondPass_rel [of Unquote bodies2 rootDir bodies1] by (simp add: sameButBodies_def)
  show ?thesis
    using ScanDir_rel [of Unquote order2 "snd (ScanDir Unquote order1 g rootDir)" rootDir order1 g]
      ScanDir_twice [of Unquote order1 g rootDir] d a w add_keysSeen [of st e]
    by blast
qed

text \<open>An endpoint is added to the empty list, then a second one with the same key: the
  list stays as it is, with the handler of the first.\<close>

theorem scan_repeatable_and_deduplicated_witness:
  "keysSeen (add listUsers \<lparr>endpoints = [], seen = {}\<rparr>)
   \<and> endpoints (add listUsers \<lparr>endpoints = [], seen = {}\<rparr>) = [listUsers]
   \<and> endpointKey (addedEndpoint listUsersAgain) = endpointKey listUsers
   \<and> add listUsersAgain (add listUsers \<lparr>endpoints = [], seen = {}\<rparr>)
       = add listUsers \<lparr>endpoints = [], seen = {}\<rparr>"
proof -
  let ?st = "add listUsers \<lparr>endpoints = [], seen = {}\<rparr>"
  have k: "keysSeen ?st"
    by (rule add_keysSeen) (simp add: keysSeen_def)
  have same: "addedEndpoint listUsers = listUsers"
    by code_simp
  have st: "endpoints ?st = [listUsers]"
    by (simp add: add_eq same)
  have key: "endpointKey (addedEndpoint listUsersAgain) = endpointKey listUsers"
    by code_simp
  have dup: "endpointKey (addedEndpoint listUsersAgain) \<in> endpointKey ` set (endpoints ?st)"
    by (simp add: st key)
  note t = scan_repeatable_and_deduplicated [of simpleUnquote id id None itemsTree
      Map.empty Map.empty ?st listUsersAgain,
      THEN conjunct2, THEN conjunct2, THEN conjunct2, THEN conjunct2, THEN conjunct2,
      THEN mp, OF k, THEN conjunct1]
  have "add listUsersAgain ?st = ?st"
    using t dup by simp
  with k st key show ?thesis
    by blast
qed

text \<open>
  Claim C9, as stated, fails for the project \<open>itemsTree\<close>: both structs match the variable
  \<open>req\<close>.  A call that visits the struct map with \<open>CreateReq\<close> first gives the body
  \<open>{"name":"string"}\<close> to \<open>POST /items\<close>, and a second call on the same tree that visits it
  with \<open>DeleteReq\<close> first gives \<open>{"id":0}\<close>.
\<close>

theorem scan_twice_counterexample:
  \<open>map (\<lambda>e. (Method e, Path e, BodyRaw e)) (fst (fst (ScanDir simpleUnquote id None itemsTree)))
     = [(''POST'', ''/items'', ''{"name":"string"}'')]
   \<and> map (\<lambda>e. (Method e, Path e, BodyRaw e))
        (fst (fst (ScanDir simpleUnquote rev (snd (ScanDir simpleUnquote id None itemsTree))
                     itemsTree)))
     = [(''POST'', ''/items'', ''{"id":0}'')]\<close>
  by code_simp

section \<open>Paths of annotations and paths of calls\<close>



















lemma rejected_literal:
  "Unquote v = Some q \<Longrightarrow> \<not> isValidEndpointPath q \<Longrightarrow>
   literalPath Unquote (BasicLit STRING v # args) = None"
  by simp






end
